theory Spec2Isabelle
  imports Main "HOL-Library.Word"
begin

section \<open>JavaScript strings\<close>

text \<open>
  A JavaScript string is a sequence of 16-bit code units. The regular expression of
  \<^verbatim>\<open>isEmail\<close> has no \<^verbatim>\<open>u\<close> flag, so it works on code units too.
  \<open>js\<close> writes an ASCII literal as such a string.
\<close>

type_synonym code_unit = "16 word"
type_synonym jstring = "code_unit list"

definition js :: "string \<Rightarrow> jstring" where
  "js s = map of_char s"

text \<open>Truthiness of a value that is a string, \<^verbatim>\<open>null\<close> or \<^verbatim>\<open>undefined\<close>.\<close>

definition truthy :: "jstring option \<Rightarrow> bool" where
  "truthy v = (case v of None \<Rightarrow> False | Some s \<Rightarrow> s \<noteq> [])"

text \<open>The string behind a value that a guard has already shown to be a string.\<close>

definition the_string :: "jstring option \<Rightarrow> jstring" where
  "the_string v = (case v of None \<Rightarrow> [] | Some s \<Rightarrow> s)"

text \<open>
  The code units that \<^verbatim>\<open>\s\<close> matches and that \<^verbatim>\<open>String.prototype.trim\<close> strips:
  ECMAScript's WhiteSpace and LineTerminator.
\<close>

definition ws_units :: "code_unit list" where
  "ws_units = [0x9, 0xA, 0xB, 0xC, 0xD, 0x20, 0xA0, 0x1680,
     0x2000, 0x2001, 0x2002, 0x2003, 0x2004, 0x2005, 0x2006, 0x2007, 0x2008, 0x2009, 0x200A,
     0x2028, 0x2029, 0x202F, 0x205F, 0x3000, 0xFEFF]"

definition is_ws :: "code_unit \<Rightarrow> bool" where
  "is_ws c = (c \<in> set ws_units)"

definition trim :: "jstring \<Rightarrow> jstring" where
  "trim s = rev (dropWhile is_ws (rev (dropWhile is_ws s)))"

definition at_sign :: code_unit where
  "at_sign = 0x40"

definition full_stop :: code_unit where
  "full_stop = 0x2E"

text \<open>\<^verbatim>\<open>s.includes("@")\<close>\<close>

definition includes_at :: "jstring \<Rightarrow> bool" where
  "includes_at s = (at_sign \<in> set s)"

section \<open>The regular expression of isEmail\<close>

text \<open>
  The fragment of regular expressions that \<^verbatim>\<open>/^[^\s@]+@[^\s@]+\.[^\s@]+$/\<close> is written
  in: a sequence of pieces, each one atom or one atom under \<^verbatim>\<open>+\<close>, an atom being a
  literal code unit or the class \<^verbatim>\<open>[^\s@]\<close>. \<open>regex_test\<close> is the backtracking match of the
  whole string, which is what \<^verbatim>\<open>^\<close> and \<^verbatim>\<open>$\<close> ask of \<^verbatim>\<open>RegExp.prototype.test\<close>.
\<close>

datatype atom = Unit code_unit | Not_ws_at

datatype piece = Once atom | Plus atom

fun atom_ok :: "atom \<Rightarrow> code_unit \<Rightarrow> bool" where
  "atom_ok (Unit u) c = (c = u)"
| "atom_ok Not_ws_at c = (\<not> is_ws c \<and> c \<noteq> at_sign)"

fun regex_test :: "piece list \<Rightarrow> jstring \<Rightarrow> bool" where
  "regex_test [] [] = True"
| "regex_test [] (c # cs) = False"
| "regex_test (p # ps) [] = False"
| "regex_test (Once a # ps) (c # cs) = (atom_ok a c \<and> regex_test ps cs)"
| "regex_test (Plus a # ps) (c # cs) =
     (atom_ok a c \<and> (regex_test ps cs \<or> regex_test (Plus a # ps) cs))"

definition emailRegex :: "piece list" where
  "emailRegex =
     [Plus Not_ws_at, Once (Unit at_sign), Plus Not_ws_at, Once (Unit full_stop), Plus Not_ws_at]"

text \<open>
  \<^verbatim>\<open>function isEmail(value: string | null | undefined): value is string\<close>
  (notify-lost-on-found/index.ts, lines 29-33).
\<close>

definition isEmail :: "jstring option \<Rightarrow> bool" where
  "isEmail v =
     (if \<not> truthy v then False
      else regex_test emailRegex (trim (the_string v)))"

section \<open>Data model\<close>

text \<open>
  A value that the code interpolates without looking at it first: a string, \<^verbatim>\<open>null\<close>, or
  nothing at all. \<open>interpolate\<close> is what a template literal makes of it and \<open>truthy_value\<close>
  its truthiness.
\<close>

datatype js_value = Js_undefined | Js_null | Js_string jstring

fun interpolate :: "js_value \<Rightarrow> jstring" where
  "interpolate Js_undefined = js ''undefined''"
| "interpolate Js_null = js ''null''"
| "interpolate (Js_string s) = s"

fun truthy_value :: "js_value \<Rightarrow> bool" where
  "truthy_value Js_undefined = False"
| "truthy_value Js_null = False"
| "truthy_value (Js_string s) = (s \<noteq> [])"

text \<open>
  \<^verbatim>\<open>FoundItemPayload\<close> of the inline-payload function, and the row the identifier-lookup
  function selects (its \<^verbatim>\<open>created_at\<close> column is never read). Neither function checks the
  title before it renders it, so the title is any \<open>js_value\<close>. The other fields are only
  used after a test for truthiness, or only tested: a field that is absent or null and a
  field that is the empty string are both falsy, and the empty string (for the optional
  fields, \<open>None\<close>) stands for them.
\<close>

record found_item =
  f_id :: jstring
  f_user_id :: jstring
  f_category :: jstring
  f_title :: js_value
  f_description :: "jstring option"
  f_location :: "jstring option"

text \<open>\<^verbatim>\<open>LostItemRow\<close>\<close>

record lost_row =
  l_id :: jstring
  l_title :: jstring
  l_contact_info :: "jstring option"
  l_user_id :: jstring

text \<open>A \<^verbatim>\<open>Set<string>\<close>: insertion order, no duplicates. \<open>set_add\<close> is \<^verbatim>\<open>Set.prototype.add\<close>.\<close>

definition set_add :: "'a \<Rightarrow> 'a list \<Rightarrow> 'a list" where
  "set_add x xs = (if x \<in> set xs then xs else xs @ [x])"

subsection \<open>The collaborators\<close>

text \<open>
  The query the code builds with the store client: the table, the selected columns and the
  \<^verbatim>\<open>.eq\<close> / \<^verbatim>\<open>.neq\<close> filters in the order they are chained.
\<close>

datatype filter = Eq string jstring | Neq string jstring

record query =
  q_from :: string
  q_select :: string
  q_filters :: "filter list"

text \<open>
  \<^verbatim>\<open>auth.admin.getUserById\<close> throws, or returns an error with \<^verbatim>\<open>data.user\<close> null, or
  returns a user whose \<^verbatim>\<open>email\<close> may be absent.
\<close>

datatype lookup_result = Lookup_throws | Lookup_error jstring | Lookup_user "jstring option"

text \<open>
  \<^verbatim>\<open>fetch\<close> rejects with an error message, or resolves to a response with its \<^verbatim>\<open>ok\<close> flag
  and a body that \<^verbatim>\<open>text()\<close> returns or fails to read.
\<close>

datatype text_result = Text jstring | Text_throws jstring

datatype fetch_result = Fetch_throws jstring | Fetch_response bool text_result

text \<open>The request sent to \<^verbatim>\<open>https://api.resend.com/emails\<close>: the bearer key and the JSON body.\<close>

record send_request =
  m_key :: jstring
  m_from :: jstring
  m_to :: jstring
  m_subject :: jstring
  m_html :: jstring

text \<open>
  Everything outside the handlers: the environment variables, the item store (a query gives
  an error message or the rows, which may be \<^verbatim>\<open>null\<close>; \<^verbatim>\<open>.single()\<close> gives an error
  message or one row), the account service, the e-mail provider, and the message the
  runtime gives the TypeError it throws when \<^verbatim>\<open>null\<close> is destructured.
\<close>

record world =
  env :: "string \<Rightarrow> jstring option"
  destructuring_null :: jstring
  select_rows :: "query \<Rightarrow> jstring + lost_row list option"
  select_single :: "query \<Rightarrow> jstring + found_item"
  getUserById :: "jstring \<Rightarrow> lookup_result"
  fetch :: "send_request \<Rightarrow> fetch_result"

text \<open>The calls a handler makes to its collaborators, in the order it makes them.\<close>

datatype event = Select query | Select_single query | Get_user jstring | Send send_request

subsection \<open>Responses\<close>

text \<open>
  A response is its status and its body; the CORS and content-type headers are the same
  constants on every path and are left out. The body constructors are the JSON objects the
  handlers serialise, with their fields in the source's order.
\<close>

record delivery =
  d_to :: jstring
  d_ok :: bool
  d_detail :: "jstring option"

record send_failure =
  e_to :: jstring
  e_error :: jstring

datatype body =
    Plain string
  | Error jstring "jstring option"
  | Message_recipients jstring "jstring list"
  | Would_notify jstring "jstring list" jstring
  | Successes_failures "jstring list" "delivery list"
  | Summary jstring nat nat "send_failure list"

record response =
  status :: nat
  body :: body

text \<open>
  A handler returns a response, or its promise rejects and the runtime answers. The
  rejection carries the reasons it can have: the reason is one of them.
\<close>

datatype failure = Unhandled_rejection "jstring list"

type_synonym outcome = "(failure + response) \<times> event list"

definition respond :: "nat \<Rightarrow> body \<Rightarrow> failure + response" where
  "respond st b = Inr \<lparr>status = st, body = b\<rparr>"

section \<open>The inline-payload function: notify-lost-on-found\<close>

text \<open>
  The request as the handler reads it: its method, and what \<^verbatim>\<open>req.json()\<close> gives, which is
  a failure or a payload whose \<^verbatim>\<open>foundItem\<close> may be missing.
\<close>

datatype 'a parsed = Invalid_JSON | Parsed 'a

record request_A =
  method_A :: string
  json_A :: "found_item option parsed"

definition nl :: jstring where
  "nl = [0xA]"

text \<open>\<^verbatim>\<open>composeEmail\<close> (lines 35-50): the subject and the HTML template literal, line by line.\<close>

definition composeEmail :: "found_item \<Rightarrow> jstring \<times> jstring" where
  \<open>composeEmail found =
     (js ''New found item in '' @ f_category found @ js '' may match your lost item'',
      nl @ js ''    <div style="font-family: Arial, sans-serif; line-height:1.5;">'' @ nl
      @ js ''      <h2>Possible match for your lost item</h2>'' @ nl
      @ js ''      <p>Someone just reported a <strong>found</strong> item in the <strong>''
        @ f_category found @ js ''</strong> category.</p>'' @ nl
      @ js ''      <ul>'' @ nl
      @ js ''        <li><strong>Title:</strong> '' @ interpolate (f_title found) @ js ''</li>'' @ nl
      @ js ''        ''
        @ (if truthy (f_description found)
           then js ''<li><strong>Description:</strong> '' @ the_string (f_description found) @ js ''</li>''
           else []) @ nl
      @ js ''        ''
        @ (if truthy (f_location found)
           then js ''<li><strong>Location:</strong> '' @ the_string (f_location found) @ js ''</li>''
           else []) @ nl
      @ js ''      </ul>'' @ nl
      @ js ''      <p>Visit the app to review details and contact the finder.</p>'' @ nl
      @ js ''    </div>'' @ nl
      @ js ''  '')\<close>

text \<open>The query of lines 91-96.\<close>

definition lost_query_A :: "found_item \<Rightarrow> query" where
  "lost_query_A found =
     \<lparr>q_from = ''items'', q_select = ''id, title, contact_info, user_id'',
      q_filters = [Eq ''type'' (js ''lost''), Eq ''status'' (js ''active''),
                   Eq ''category'' (f_category found)]\<rparr>"

text \<open>
  Lines 53-103: method, body, payload and configuration checks and the query for the lost
  items. The result is the early response, or the found item with the rows to loop over
  (\<^verbatim>\<open>lostItems || []\<close>).
\<close>

definition prepare_A :: "world \<Rightarrow> request_A \<Rightarrow> (response + found_item \<times> lost_row list) \<times> event list" where
  "prepare_A w req =
     (if method_A req = ''OPTIONS'' then (Inl \<lparr>status = 200, body = Plain ''ok''\<rparr>, [])
      else if method_A req \<noteq> ''POST''
      then (Inl \<lparr>status = 405, body = Plain ''Method Not Allowed''\<rparr>, [])
      else case json_A req of
        Invalid_JSON \<Rightarrow> (Inl \<lparr>status = 400, body = Error (js ''Invalid JSON body'') None\<rparr>, [])
      | Parsed None \<Rightarrow>
          (Inl \<lparr>status = 400, body = Error (js ''Missing required foundItem payload'') None\<rparr>, [])
      | Parsed (Some found) \<Rightarrow>
          if f_category found = [] \<or> f_user_id found = []
          then (Inl \<lparr>status = 400, body = Error (js ''Missing required foundItem payload'') None\<rparr>, [])
          else if \<not> truthy (env w ''SUPABASE_URL'') \<or> \<not> truthy (env w ''SUPABASE_SERVICE_ROLE_KEY'')
          then (Inl \<lparr>status = 500, body = Error (js ''Server missing Supabase configuration'') None\<rparr>, [])
          else (case select_rows w (lost_query_A found) of
            Inl message \<Rightarrow>
              (Inl \<lparr>status = 500, body = Error (js ''Failed querying lost items'') (Some message)\<rparr>,
               [Select (lost_query_A found)])
          | Inr lostItems \<Rightarrow>
              (Inr (found, (case lostItems of None \<Rightarrow> [] | Some rows \<Rightarrow> rows)),
               [Select (lost_query_A found)])))"

text \<open>
  The loop of lines 108-112 over the rows, on the two sets \<^verbatim>\<open>recipients\<close> and
  \<^verbatim>\<open>missingEmailUserIds\<close>.
\<close>

fun collect_A :: "found_item \<Rightarrow> lost_row list \<Rightarrow> jstring list \<times> jstring list \<Rightarrow> jstring list \<times> jstring list" where
  "collect_A found [] (recipients, missing) = (recipients, missing)"
| "collect_A found (item # items) (recipients, missing) =
     (if l_user_id item = f_user_id found then collect_A found items (recipients, missing)
      else if isEmail (l_contact_info item)
      then collect_A found items (set_add (trim (the_string (l_contact_info item))) recipients, missing)
      else collect_A found items (recipients, set_add (l_user_id item) missing))"

text \<open>
  The loop of lines 115-123 over \<^verbatim>\<open>missingEmailUserIds\<close>: a throw is caught and ignored,
  an error result has no \<^verbatim>\<open>data.user\<close>, and an e-mail is added when it is truthy.
\<close>

fun resolve_A :: "world \<Rightarrow> jstring list \<Rightarrow> jstring list \<Rightarrow> jstring list" where
  "resolve_A w [] recipients = recipients"
| "resolve_A w (uid # uids) recipients =
     (case getUserById w uid of
        Lookup_throws \<Rightarrow> resolve_A w uids recipients
      | Lookup_error e \<Rightarrow> resolve_A w uids recipients
      | Lookup_user email \<Rightarrow>
          if truthy email then resolve_A w uids (set_add (the_string email) recipients)
          else resolve_A w uids recipients)"

text \<open>\<^verbatim>\<open>Array.from(recipients)\<close> at line 125, for the rows of one request.\<close>

definition recipients_A :: "world \<Rightarrow> found_item \<Rightarrow> lost_row list \<Rightarrow> jstring list" where
  "recipients_A w found rows =
     (case collect_A found rows ([], []) of
        (recipients, missing) \<Rightarrow> resolve_A w missing recipients)"

text \<open>
  The callback of lines 151-168 for one request. A rejected \<^verbatim>\<open>fetch\<close> is not caught: the
  callback's promise rejects with its message. Otherwise it is fulfilled with the record.
\<close>

definition send_A :: "world \<Rightarrow> send_request \<Rightarrow> jstring + delivery" where
  "send_A w rq =
     (case fetch w rq of
        Fetch_throws m \<Rightarrow> Inl m
      | Fetch_response ok txt \<Rightarrow>
          Inr \<lparr>d_to = m_to rq, d_ok = ok,
               d_detail = (if ok then None
                           else case txt of Text t \<Rightarrow> Some t | Text_throws m \<Rightarrow> None)\<rparr>)"

text \<open>
  \<^verbatim>\<open>Promise.all\<close>: the values in order when every promise is fulfilled. When some reject, it
  rejects with the reason of the one that rejected first in time; the model has no clock
  and gives the reasons of all that reject, in list order.
\<close>

fun promise_all :: "(jstring + 'a) list \<Rightarrow> jstring list + 'a list" where
  "promise_all [] = Inr []"
| "promise_all (Inl m # ps) =
     (case promise_all ps of Inl ms \<Rightarrow> Inl (m # ms) | Inr vs \<Rightarrow> Inl [m])"
| "promise_all (Inr v # ps) =
     (case promise_all ps of Inl ms \<Rightarrow> Inl ms | Inr vs \<Rightarrow> Inr (v # vs))"

text \<open>The request of lines 152-164 for one recipient, and those for all of them.\<close>

definition request_A :: "world \<Rightarrow> found_item \<Rightarrow> jstring \<Rightarrow> send_request" where
  "request_A w found to =
     \<lparr>m_key = the_string (env w ''RESEND_API_KEY''),
      m_from = (if truthy (env w ''FROM_EMAIL'') then the_string (env w ''FROM_EMAIL'')
                else js ''notifications@no-reply.local''),
      m_to = to, m_subject = fst (composeEmail found), m_html = snd (composeEmail found)\<rparr>"

definition requests_A :: "world \<Rightarrow> found_item \<Rightarrow> jstring list \<Rightarrow> send_request list" where
  "requests_A w found toList = map (request_A w found) toList"

text \<open>
  Lines 126-177. \<^verbatim>\<open>toList.map\<close> calls every callback, and each callback calls \<^verbatim>\<open>fetch\<close>
  before its first \<^verbatim>\<open>await\<close>: every request is sent, whatever the others do.
\<close>

definition dispatch_A :: "world \<Rightarrow> found_item \<Rightarrow> jstring list \<Rightarrow> outcome" where
  "dispatch_A w found toList =
     (if length toList = 0
      then (respond 200 (Message_recipients (js ''No recipients to notify'') []), [])
      else if \<not> truthy (env w ''RESEND_API_KEY'')
      then (respond 200
              (Would_notify (js ''Email provider not configured. Set RESEND_API_KEY and FROM_EMAIL.'')
                 toList (fst (composeEmail found))), [])
      else case promise_all (map (send_A w) (requests_A w found toList)) of
        Inl reasons \<Rightarrow> (Inl (Unhandled_rejection reasons), map Send (requests_A w found toList))
      | Inr results \<Rightarrow>
          (respond 200
             (Successes_failures (map d_to (filter d_ok results))
                (filter (\<lambda>r. \<not> d_ok r) results)),
           map Send (requests_A w found toList)))"

text \<open>The handler of lines 52-178, with the calls it made.\<close>

definition handler_A :: "world \<Rightarrow> request_A \<Rightarrow> outcome" where
  "handler_A w req =
     (case prepare_A w req of
        (Inl early, evs) \<Rightarrow> (Inr early, evs)
      | (Inr (found, rows), evs) \<Rightarrow>
          (case collect_A found rows ([], []) of
             (recipients, missing) \<Rightarrow>
               (case dispatch_A w found (resolve_A w missing recipients) of
                  (out, sends) \<Rightarrow> (out, evs @ map Get_user missing @ sends))))"

section \<open>The identifier-lookup function: notify-matches\<close>

text \<open>
  The body is read as \<^verbatim>\<open>{ foundItemId?: string }\<close>. What \<^verbatim>\<open>req.json()\<close> gives is
  \<^verbatim>\<open>null\<close>, or another value with the \<^verbatim>\<open>foundItemId\<close> it may have; a body that is
  not JSON is replaced by the empty object, which has none.
\<close>

datatype body_B = Null_body | Body "jstring option"

record request_B =
  method_B :: string
  json_B :: "body_B parsed"

text \<open>The queries of lines 58-62 and 68-77; the \<^verbatim>\<open>.neq\<close> is chained when the finder is known.\<close>

definition found_query_B :: "jstring \<Rightarrow> query" where
  "found_query_B foundItemId =
     \<lparr>q_from = ''items'',
      q_select = ''id, title, description, category, location, user_id, created_at'',
      q_filters = [Eq ''id'' foundItemId]\<rparr>"

definition lost_query_B :: "found_item \<Rightarrow> query" where
  "lost_query_B foundItem =
     \<lparr>q_from = ''items'', q_select = ''id, title, user_id, contact_info'',
      q_filters = [Eq ''type'' (js ''lost''), Eq ''status'' (js ''active''),
                   Eq ''category'' (f_category foundItem)]
                  @ (if f_user_id foundItem \<noteq> [] then [Neq ''user_id'' (f_user_id foundItem)]
                     else [])\<rparr>"

text \<open>
  Lines 14-80: method and configuration checks (the e-mail key among them), the body, the
  found item and the lost rows. Destructuring a \<^verbatim>\<open>null\<close> body throws a TypeError and an
  error of either query is thrown too; the \<^verbatim>\<open>catch\<close> of line 160 answers 500 with the
  message.
\<close>

definition prepare_B :: "world \<Rightarrow> request_B \<Rightarrow> (response + found_item \<times> lost_row list) \<times> event list" where
  "prepare_B w req =
     (if method_B req = ''OPTIONS'' then (Inl \<lparr>status = 200, body = Plain ''ok''\<rparr>, [])
      else if method_B req \<noteq> ''POST''
      then (Inl \<lparr>status = 405, body = Error (js ''Method not allowed'') None\<rparr>, [])
      else if \<not> truthy (env w ''SUPABASE_URL'') \<or> \<not> truthy (env w ''SUPABASE_SERVICE_ROLE_KEY'')
      then (Inl \<lparr>status = 500, body = Error (js ''Missing Supabase environment config'') None\<rparr>, [])
      else if \<not> truthy (env w ''RESEND_API_KEY'')
      then (Inl \<lparr>status = 500, body = Error (js ''Missing RESEND_API_KEY secret'') None\<rparr>, [])
      else (case (case json_B req of Invalid_JSON \<Rightarrow> Body None | Parsed b \<Rightarrow> b) of
        Null_body \<Rightarrow> (Inl \<lparr>status = 500, body = Error (destructuring_null w) None\<rparr>, [])
      | Body None \<Rightarrow>
          (Inl \<lparr>status = 400, body = Error (js ''foundItemId is required'') None\<rparr>, [])
      | Body (Some foundItemId) \<Rightarrow>
          if foundItemId = []
          then (Inl \<lparr>status = 400, body = Error (js ''foundItemId is required'') None\<rparr>, [])
          else (case select_single w (found_query_B foundItemId) of
            Inl message \<Rightarrow>
              (Inl \<lparr>status = 500, body = Error message None\<rparr>,
               [Select_single (found_query_B foundItemId)])
          | Inr foundItem \<Rightarrow>
              (case select_rows w (lost_query_B foundItem) of
                 Inl message \<Rightarrow>
                   (Inl \<lparr>status = 500, body = Error message None\<rparr>,
                    [Select_single (found_query_B foundItemId), Select (lost_query_B foundItem)])
               | Inr lostItems \<Rightarrow>
                   (Inr (foundItem, (case lostItems of None \<Rightarrow> [] | Some rows \<Rightarrow> rows)),
                    [Select_single (found_query_B foundItemId), Select (lost_query_B foundItem)])))))"

text \<open>
  The loop of lines 85-102 on \<^verbatim>\<open>toEmailsSet\<close>, with the account lookups it makes. A throw
  and an error result are logged and add nothing.
\<close>

fun collect_B :: "world \<Rightarrow> lost_row list \<Rightarrow> jstring list \<times> event list \<Rightarrow> jstring list \<times> event list" where
  "collect_B w [] (toEmailsSet, evs) = (toEmailsSet, evs)"
| "collect_B w (li # lis) (toEmailsSet, evs) =
     (if truthy (l_contact_info li) \<and> includes_at (the_string (l_contact_info li))
      then collect_B w lis (set_add (trim (the_string (l_contact_info li))) toEmailsSet, evs)
      else if l_user_id li \<noteq> []
      then (case getUserById w (l_user_id li) of
              Lookup_throws \<Rightarrow> collect_B w lis (toEmailsSet, evs @ [Get_user (l_user_id li)])
            | Lookup_error userErr \<Rightarrow> collect_B w lis (toEmailsSet, evs @ [Get_user (l_user_id li)])
            | Lookup_user email \<Rightarrow>
                if truthy email
                then collect_B w lis (set_add (the_string email) toEmailsSet,
                                      evs @ [Get_user (l_user_id li)])
                else collect_B w lis (toEmailsSet, evs @ [Get_user (l_user_id li)]))
      else collect_B w lis (toEmailsSet, evs))"

text \<open>\<^verbatim>\<open>Array.from(toEmailsSet.values())\<close> at line 105, for the rows of one request.\<close>

definition recipients_B :: "world \<Rightarrow> lost_row list \<Rightarrow> jstring list" where
  "recipients_B w rows = fst (collect_B w rows ([], []))"

definition left_quote :: code_unit where
  "left_quote = 0x201C"

definition right_quote :: code_unit where
  "right_quote = 0x201D"

text \<open>Lines 110-121: the subject and the HTML template literal.\<close>

definition compose_B :: "found_item \<Rightarrow> jstring \<times> jstring" where
  \<open>compose_B foundItem =
     (js ''Possible match: Found item in '' @ f_category foundItem,
      nl @ js ''      <div style="font-family: system-ui, -apple-system, Segoe UI, Roboto, Helvetica, Arial;">'' @ nl
      @ js ''        <h2>We found a potential match in '' @ f_category foundItem
        @ (if truthy_value (f_title foundItem)
           then js '': '' @ [left_quote] @ interpolate (f_title foundItem) @ [right_quote]
           else [])
        @ js ''</h2>'' @ nl
      @ js ''        <p>Someone just reported a found item in the <strong>'' @ f_category foundItem
        @ js ''</strong> category.</p>'' @ nl
      @ js ''        '' @ js ''<p><strong>Title:</strong> '' @ interpolate (f_title foundItem) @ js ''</p>'' @ nl
      @ js ''        ''
        @ (if truthy (f_description foundItem)
           then js ''<p><strong>Description:</strong> '' @ the_string (f_description foundItem) @ js ''</p>''
           else []) @ nl
      @ js ''        ''
        @ (if truthy (f_location foundItem)
           then js ''<p><strong>Location:</strong> '' @ the_string (f_location foundItem) @ js ''</p>''
           else []) @ nl
      @ js ''        <p>Visit Campus Finder to view details and contact the finder.</p>'' @ nl
      @ js ''      </div>'' @ nl
      @ js ''    '')\<close>

text \<open>The request of lines 125-137 for one recipient, and those for all of them.\<close>

definition request_B :: "world \<Rightarrow> found_item \<Rightarrow> jstring \<Rightarrow> send_request" where
  "request_B w foundItem to =
     \<lparr>m_key = the_string (env w ''RESEND_API_KEY''),
      m_from = (case env w ''RESEND_FROM'' of
                  None \<Rightarrow> js ''Campus Finder <no-reply@yourapp.example>''
                | Some sender \<Rightarrow> sender),
      m_to = to, m_subject = fst (compose_B foundItem), m_html = snd (compose_B foundItem)\<rparr>"

definition requests_B :: "world \<Rightarrow> found_item \<Rightarrow> jstring list \<Rightarrow> send_request list" where
  "requests_B w foundItem toEmails = map (request_B w foundItem) toEmails"

text \<open>
  The loop of lines 123-147 over the requests, on \<^verbatim>\<open>sent\<close> and \<^verbatim>\<open>failures\<close>. The
  \<^verbatim>\<open>catch\<close> of line 144 takes a rejected \<^verbatim>\<open>fetch\<close> and a failed \<^verbatim>\<open>resp.text()\<close> alike.
\<close>

fun send_B :: "world \<Rightarrow> send_request list \<Rightarrow> nat \<times> send_failure list \<Rightarrow> nat \<times> send_failure list" where
  "send_B w [] (sent, failures) = (sent, failures)"
| "send_B w (rq # rqs) (sent, failures) =
     (case fetch w rq of
        Fetch_throws m \<Rightarrow> send_B w rqs (sent, failures @ [\<lparr>e_to = m_to rq, e_error = m\<rparr>])
      | Fetch_response ok txt \<Rightarrow>
          if \<not> ok
          then (case txt of
                  Text errText \<Rightarrow>
                    send_B w rqs (sent, failures @ [\<lparr>e_to = m_to rq, e_error = errText\<rparr>])
                | Text_throws m \<Rightarrow>
                    send_B w rqs (sent, failures @ [\<lparr>e_to = m_to rq, e_error = m\<rparr>]))
          else send_B w rqs (sent + 1, failures))"

text \<open>Lines 105-159.\<close>

definition dispatch_B :: "world \<Rightarrow> found_item \<Rightarrow> jstring list \<Rightarrow> outcome" where
  "dispatch_B w foundItem toEmails =
     (case send_B w (requests_B w foundItem toEmails) (0, []) of
        (sent, failures) \<Rightarrow>
          (respond 200 (Summary (f_category foundItem) (length toEmails) sent failures),
           map Send (requests_B w foundItem toEmails)))"

text \<open>The handler of lines 13-167, with the calls it made.\<close>

definition handler_B :: "world \<Rightarrow> request_B \<Rightarrow> outcome" where
  "handler_B w req =
     (case prepare_B w req of
        (Inl early, evs) \<Rightarrow> (Inr early, evs)
      | (Inr (foundItem, rows), evs) \<Rightarrow>
          (case collect_B w rows ([], []) of
             (toEmailsSet, lookups) \<Rightarrow>
               (case dispatch_B w foundItem toEmailsSet of
                  (out, sends) \<Rightarrow> (out, evs @ lookups @ sends))))"

section \<open>Notions the properties are stated with\<close>

text \<open>The addresses a run dispatched to and the accounts it looked up, read off its calls.\<close>

fun sent_to :: "event list \<Rightarrow> jstring list" where
  "sent_to [] = []"
| "sent_to (Send rq # evs) = m_to rq # sent_to evs"
| "sent_to (Select q # evs) = sent_to evs"
| "sent_to (Select_single q # evs) = sent_to evs"
| "sent_to (Get_user uid # evs) = sent_to evs"

fun looked_up :: "event list \<Rightarrow> jstring list" where
  "looked_up [] = []"
| "looked_up (Get_user uid # evs) = uid # looked_up evs"
| "looked_up (Select q # evs) = looked_up evs"
| "looked_up (Select_single q # evs) = looked_up evs"
| "looked_up (Send rq # evs) = looked_up evs"

text \<open>An account lookup fails by throwing or by returning an error.\<close>

fun lookup_failed :: "lookup_result \<Rightarrow> bool" where
  "lookup_failed Lookup_throws = True"
| "lookup_failed (Lookup_error e) = True"
| "lookup_failed (Lookup_user email) = False"

text \<open>A delivery fails at the transport when \<^verbatim>\<open>fetch\<close> rejects.\<close>

fun fetch_threw :: "fetch_result \<Rightarrow> bool" where
  "fetch_threw (Fetch_throws m) = True"
| "fetch_threw (Fetch_response ok txt) = False"

text \<open>The \<^verbatim>\<open>ok\<close> flag of a provider answer; a rejected \<^verbatim>\<open>fetch\<close> has none and counts as not ok.\<close>

fun fetch_ok :: "fetch_result \<Rightarrow> bool" where
  "fetch_ok (Fetch_throws m) = False"
| "fetch_ok (Fetch_response ok txt) = ok"

text \<open>
  The contract of the item store, as far as a returned row can show it: a row satisfies an
  \<^verbatim>\<open>.eq\<close> or \<^verbatim>\<open>.neq\<close> filter on one of its own columns (a null column satisfies
  neither); filters on columns that were not selected cannot be read off the row. A store
  honours a query when every row it returns for it satisfies its filters.
\<close>

fun row_matches :: "lost_row \<Rightarrow> filter \<Rightarrow> bool" where
  "row_matches r (Eq col v) =
     (if col = ''id'' then l_id r = v
      else if col = ''title'' then l_title r = v
      else if col = ''user_id'' then l_user_id r = v
      else if col = ''contact_info'' then l_contact_info r = Some v
      else True)"
| "row_matches r (Neq col v) =
     (if col = ''id'' then l_id r \<noteq> v
      else if col = ''title'' then l_title r \<noteq> v
      else if col = ''user_id'' then l_user_id r \<noteq> v
      else if col = ''contact_info''
      then (case l_contact_info r of None \<Rightarrow> False | Some c \<Rightarrow> c \<noteq> v)
      else True)"

definition honours :: "world \<Rightarrow> query \<Rightarrow> bool" where
  "honours w q =
     (case select_rows w q of
        Inl message \<Rightarrow> True
      | Inr None \<Rightarrow> True
      | Inr (Some rows) \<Rightarrow> list_all (\<lambda>r. list_all (row_matches r) (q_filters q)) rows)"

text \<open>The test the identifier-lookup function applies to a contact (line 87).\<close>

definition contact_has_at :: "jstring option \<Rightarrow> bool" where
  "contact_has_at contact = (truthy contact \<and> includes_at (the_string contact))"

text \<open>The atom a piece repeats.\<close>

fun atom_of :: "piece \<Rightarrow> atom" where
  "atom_of (Once a) = a"
| "atom_of (Plus a) = a"

text \<open>The addresses an account lookup adds: the truthy e-mail of a returned user.\<close>

fun account_emails :: "lookup_result \<Rightarrow> jstring list" where
  "account_emails Lookup_throws = []"
| "account_emails (Lookup_error e) = []"
| "account_emails (Lookup_user email) = (if truthy email then [the_string email] else [])"

text \<open>
  The addresses one returned row resolves to, by the branch its loop takes for it. In the
  inline-payload function: none for the finder's own row, the trimmed contact when
  \<^verbatim>\<open>isEmail\<close> accepts it, and otherwise what the lookup of its owner adds. In the
  identifier-lookup function: the trimmed contact when it is non-empty with an \<^verbatim>\<open>@\<close>,
  otherwise what the lookup of a non-empty owner adds.
\<close>

definition resolves_A :: "world \<Rightarrow> found_item \<Rightarrow> lost_row \<Rightarrow> jstring list" where
  "resolves_A w found item =
     (if l_user_id item = f_user_id found then []
      else if isEmail (l_contact_info item) then [trim (the_string (l_contact_info item))]
      else account_emails (getUserById w (l_user_id item)))"

definition resolves_B :: "world \<Rightarrow> lost_row \<Rightarrow> jstring list" where
  "resolves_B w li =
     (if contact_has_at (l_contact_info li) then [trim (the_string (l_contact_info li))]
      else if l_user_id li \<noteq> [] then account_emails (getUserById w (l_user_id li))
      else [])"

subsection \<open>The scenario of the specification, as concrete data\<close>

definition iphone :: found_item where
  "iphone = \<lparr>f_id = js ''f1'', f_user_id = js ''u1'', f_category = js ''Electronics'',
             f_title = Js_string (js ''iPhone 13''), f_description = None, f_location = None\<rparr>"

definition lost_row_of :: "string \<Rightarrow> string \<Rightarrow> jstring option \<Rightarrow> lost_row" where
  "lost_row_of ident owner contact =
     \<lparr>l_id = js ident, l_title = js ''Lost phone'', l_contact_info = contact, l_user_id = js owner\<rparr>"

definition full_env :: "string \<Rightarrow> jstring option" where
  "full_env name =
     (if name = ''SUPABASE_URL'' then Some (js ''https://db.example'')
      else if name = ''SUPABASE_SERVICE_ROLE_KEY'' then Some (js ''service-role'')
      else if name = ''RESEND_API_KEY'' then Some (js ''re_123'')
      else None)"

definition keyless_env :: "string \<Rightarrow> jstring option" where
  "keyless_env name = (if name = ''RESEND_API_KEY'' then None else full_env name)"

text \<open>
  A store that holds the given lost rows and the found item \<open>iphone\<close> and honours the filters;
  an account service that knows \<^verbatim>\<open>u3\<close> as \<^verbatim>\<open>c@d.com\<close> and throws on everyone else.
\<close>

definition scenario :: "(string \<Rightarrow> jstring option) \<Rightarrow> lost_row list \<Rightarrow> (send_request \<Rightarrow> fetch_result) \<Rightarrow> world" where
  "scenario e rows provider =
     \<lparr>env = e,
      destructuring_null = js ''Cannot destructure null'',
      select_rows = (\<lambda>q. Inr (Some (filter (\<lambda>r. list_all (row_matches r) (q_filters q)) rows))),
      select_single = (\<lambda>q. Inr iphone),
      getUserById = (\<lambda>uid. if uid = js ''u3'' then Lookup_user (Some (js ''c@d.com''))
                            else Lookup_throws),
      fetch = provider\<rparr>"

definition accepting :: "send_request \<Rightarrow> fetch_result" where
  "accepting rq = Fetch_response True (Text [])"

text \<open>A provider whose connection breaks for \<^verbatim>\<open>a@b.com\<close>, and one that rejects that address.\<close>

definition breaking :: "send_request \<Rightarrow> fetch_result" where
  "breaking rq =
     (if m_to rq = js ''a@b.com'' then Fetch_throws (js ''connection reset'')
      else Fetch_response True (Text []))"


definition post_A :: "found_item \<Rightarrow> request_A" where
  "post_A found = \<lparr>method_A = ''POST'', json_A = Parsed (Some found)\<rparr>"

definition post_B :: "string \<Rightarrow> request_B" where
  "post_B ident = \<lparr>method_B = ''POST'', json_B = Parsed (Body (Some (js ident)))\<rparr>"

definition two_candidates :: "lost_row list" where
  "two_candidates =
     [lost_row_of ''l2'' ''u2'' (Some (js ''a@b.com'')), lost_row_of ''l3'' ''u3'' None]"

text \<open>Four candidates of whom two share \<^verbatim>\<open>a@b.com\<close> and two resolve to \<^verbatim>\<open>c@d.com\<close>.\<close>

definition duplicate_candidates :: "lost_row list" where
  "duplicate_candidates =
     [lost_row_of ''l2'' ''u2'' (Some (js ''a@b.com'')), lost_row_of ''l3'' ''u3'' None,
      lost_row_of ''l4'' ''u4'' (Some (js ''c@d.com'')), lost_row_of ''l5'' ''u5'' (Some (js ''a@b.com''))]"

text \<open>A candidate nobody can be reached for, alone and after a reachable one.\<close>

definition unreachable_candidates :: "lost_row list" where
  "unreachable_candidates = [lost_row_of ''l9'' ''u9'' None]"

definition with_unreachable :: "lost_row list" where
  "with_unreachable =
     [lost_row_of ''l2'' ''u2'' (Some (js ''a@b.com'')), lost_row_of ''l9'' ''u9'' None]"

text \<open>The finder's own lost item next to somebody else's.\<close>

definition own_and_other :: "lost_row list" where
  "own_and_other =
     [lost_row_of ''l1'' ''u1'' (Some (js ''c@d.com'')), lost_row_of ''l2'' ''u2'' (Some (js ''a@b.com''))]"

text \<open>A candidate whose contact has an \<^verbatim>\<open>@\<close> and no dot after it.\<close>

definition dotless_candidates :: "lost_row list" where
  "dotless_candidates = [lost_row_of ''l3'' ''u3'' (Some (js ''a@b''))]"

section \<open>Properties\<close>

subsection \<open>Evaluation and basic facts\<close>

lemmas unfold_strings = js_def truthy_def the_string_def trim_def is_ws_def ws_units_def
  emailRegex_def at_sign_def full_stop_def includes_at_def isEmail_def set_add_def
  contact_has_at_def

lemmas candidate_lists = two_candidates_def duplicate_candidates_def unreachable_candidates_def
  with_unreachable_def own_and_other_def dotless_candidates_def

lemma of_char_word_inj: "(of_char c :: code_unit) = of_char d \<longleftrightarrow> c = d"
proof
  assume "(of_char c :: code_unit) = of_char d"
  then have "unat (of_nat (of_char c) :: code_unit) = unat (of_nat (of_char d) :: code_unit)"
    by (simp only: of_nat_of_char)
  moreover have "(of_char c :: nat) < 2 ^ 16" "(of_char d :: nat) < 2 ^ 16"
    by (rule less_trans [OF nat_of_char_less_256], simp)+
  ultimately have "(of_char c :: nat) = of_char d"
    by (simp add: unat_of_nat)
  then show "c = d" by simp
qed simp

lemma js_eq_iff: "js s = js t \<longleftrightarrow> s = t"
  by (simp add: js_def inj_def of_char_word_inj)

lemma js_Nil_iff: "js s = [] \<longleftrightarrow> s = []"
  by (simp add: js_def)

lemma full_env_values:
  "full_env ''SUPABASE_URL'' = Some (js ''https://db.example'')"
  "full_env ''SUPABASE_SERVICE_ROLE_KEY'' = Some (js ''service-role'')"
  "full_env ''RESEND_API_KEY'' = Some (js ''re_123'')"
  "full_env ''FROM_EMAIL'' = None"
  "full_env ''RESEND_FROM'' = None"
  by (simp_all add: full_env_def)

lemma keyless_env_values:
  "keyless_env ''SUPABASE_URL'' = Some (js ''https://db.example'')"
  "keyless_env ''SUPABASE_SERVICE_ROLE_KEY'' = Some (js ''service-role'')"
  "keyless_env ''RESEND_API_KEY'' = None"
  "keyless_env ''FROM_EMAIL'' = None"
  "keyless_env ''RESEND_FROM'' = None"
  by (simp_all add: keyless_env_def full_env_def)

lemma truthy_simps: "truthy None = False" "truthy (Some (js s)) = (s \<noteq> [])"
  by (simp_all add: truthy_def js_Nil_iff)

lemma the_string_Some: "the_string (Some s) = s"
  by (simp add: the_string_def)

lemma isEmail_None: "isEmail None = False"
  by (simp add: isEmail_def truthy_def)

lemma sample_contacts:
  "isEmail (Some (js ''a@b.com''))" "trim (js ''a@b.com'') = js ''a@b.com''"
  "isEmail (Some (js ''c@d.com''))" "trim (js ''c@d.com'') = js ''c@d.com''"
  "\<not> isEmail (Some (js ''a@b''))" "trim (js ''a@b'') = js ''a@b''"
  "includes_at (js ''a@b.com'')" "includes_at (js ''c@d.com'')" "includes_at (js ''a@b'')"
  by (simp_all add: unfold_strings)

lemma scenario_sel:
  "env (scenario e rows provider) = e"
  "select_rows (scenario e rows provider) q =
     Inr (Some (filter (\<lambda>r. list_all (row_matches r) (q_filters q)) rows))"
  "select_single (scenario e rows provider) q = Inr iphone"
  "getUserById (scenario e rows provider) uid =
     (if uid = js ''u3'' then Lookup_user (Some (js ''c@d.com'')) else Lookup_throws)"
  "fetch (scenario e rows provider) = provider"
  by (simp_all add: scenario_def)

lemma iphone_sel:
  "f_id iphone = js ''f1''" "f_user_id iphone = js ''u1''" "f_category iphone = js ''Electronics''"
  "f_title iphone = Js_string (js ''iPhone 13'')" "f_description iphone = None" "f_location iphone = None"
  by (simp_all add: iphone_def)

lemma lost_row_of_sel:
  "l_id (lost_row_of i u c) = js i" "l_user_id (lost_row_of i u c) = js u"
  "l_contact_info (lost_row_of i u c) = c" "l_title (lost_row_of i u c) = js ''Lost phone''"
  by (simp_all add: lost_row_of_def)

lemmas scenario_facts = js_eq_iff js_Nil_iff full_env_values keyless_env_values truthy_simps
  the_string_Some isEmail_None sample_contacts scenario_sel iphone_sel lost_row_of_sel
  post_A_def post_B_def lost_query_A_def lost_query_B_def found_query_B_def set_add_def

lemma set_set_add: "set (set_add x xs) = insert x (set xs)"
  by (auto simp: set_add_def)

lemma distinct_set_add: "distinct xs \<Longrightarrow> distinct (set_add x xs)"
  by (simp add: set_add_def)

lemma distinct_collect_A:
  "distinct r \<Longrightarrow> distinct m \<Longrightarrow>
   distinct (fst (collect_A found rows (r, m))) \<and> distinct (snd (collect_A found rows (r, m)))"
  by (induction rows arbitrary: r m) (auto simp: distinct_set_add)

lemma distinct_resolve_A: "distinct r \<Longrightarrow> distinct (resolve_A w uids r)"
  by (induction uids arbitrary: r) (auto simp: distinct_set_add split: lookup_result.splits)

lemma distinct_recipients_A: "distinct (recipients_A w found rows)"
  using distinct_collect_A [of "[]" "[]" found rows]
  by (auto simp: recipients_A_def distinct_resolve_A split: prod.splits)

lemma fst_collect_B_indep:
  "fst (collect_B w rows (s, evs)) = fst (collect_B w rows (s, evs'))"
  by (induction rows arbitrary: s evs evs') (auto split: lookup_result.splits)

lemma distinct_collect_B:
  "distinct s \<Longrightarrow> distinct (fst (collect_B w rows (s, evs)))"
  by (induction rows arbitrary: s evs) (auto simp: distinct_set_add split: lookup_result.splits)

lemma distinct_recipients_B: "distinct (recipients_B w rows)"
  by (simp add: recipients_B_def distinct_collect_B)

lemma sent_to_append: "sent_to (xs @ ys) = sent_to xs @ sent_to ys"
  by (induction xs rule: sent_to.induct) auto

lemma sent_to_Send: "sent_to (map Send rqs) = map m_to rqs"
  by (induction rqs) auto

lemma sent_to_Get_user: "sent_to (map Get_user uids) = []"
  by (induction uids) auto

lemma looked_up_append: "looked_up (xs @ ys) = looked_up xs @ looked_up ys"
  by (induction xs rule: looked_up.induct) auto

lemma looked_up_Send: "looked_up (map Send rqs) = []"
  by (induction rqs) auto

lemma looked_up_Get_user: "looked_up (map Get_user uids) = uids"
  by (induction uids) auto

lemma sent_to_prepare_A: "sent_to (snd (prepare_A w req)) = []"
  by (simp add: prepare_A_def split: parsed.splits option.splits sum.splits)

lemma looked_up_prepare_A: "looked_up (snd (prepare_A w req)) = []"
  by (simp add: prepare_A_def split: parsed.splits option.splits sum.splits)

lemma sent_to_prepare_B: "sent_to (snd (prepare_B w req)) = []"
  by (simp add: prepare_B_def split: parsed.splits body_B.splits option.splits sum.splits)

lemma looked_up_prepare_B: "looked_up (snd (prepare_B w req)) = []"
  by (simp add: prepare_B_def split: parsed.splits body_B.splits option.splits sum.splits)

lemma sent_to_collect_B: "sent_to (snd (collect_B w rows (s, evs))) = sent_to evs"
  by (induction rows arbitrary: s evs) (auto simp: sent_to_append split: lookup_result.splits)

lemma to_requests_A: "map m_to (requests_A w found toList) = toList"
  by (simp add: requests_A_def request_A_def comp_def)

lemma to_requests_B: "map m_to (requests_B w found toList) = toList"
  by (simp add: requests_B_def request_B_def comp_def)

lemma sent_to_dispatch_A:
  "sent_to (snd (dispatch_A w found toList)) =
     (if truthy (env w ''RESEND_API_KEY'') then toList else [])"
  by (simp add: dispatch_A_def sent_to_Send to_requests_A split: sum.splits)

lemma sent_to_dispatch_B: "sent_to (snd (dispatch_B w found toEmails)) = toEmails"
  by (simp add: dispatch_B_def sent_to_Send to_requests_B split: prod.splits)

lemma handler_A_early:
  "prepare_A w req = (Inl early, evs) \<Longrightarrow> handler_A w req = (Inr early, evs)"
  by (simp add: handler_A_def)

lemma handler_A_reached:
  assumes "prepare_A w req = (Inr (found, rows), evs)"
  shows "fst (handler_A w req) = fst (dispatch_A w found (recipients_A w found rows))"
    and "sent_to (snd (handler_A w req)) = sent_to (snd (dispatch_A w found (recipients_A w found rows)))"
    and "looked_up (snd (handler_A w req)) = snd (collect_A found rows ([], []))"
  using assms sent_to_prepare_A [of w req] looked_up_prepare_A [of w req]
  by (simp_all add: handler_A_def recipients_A_def sent_to_append sent_to_Get_user
      looked_up_append looked_up_Get_user looked_up_Send dispatch_A_def split: prod.splits sum.splits)

lemma handler_B_early:
  "prepare_B w req = (Inl early, evs) \<Longrightarrow> handler_B w req = (Inr early, evs)"
  by (simp add: handler_B_def)

lemma handler_B_reached:
  assumes "prepare_B w req = (Inr (found, rows), evs)"
  shows "fst (handler_B w req) = fst (dispatch_B w found (recipients_B w rows))"
    and "sent_to (snd (handler_B w req)) = recipients_B w rows"
    and "looked_up (snd (handler_B w req)) = looked_up (snd (collect_B w rows ([], [])))"
proof -
  obtain s lookups where c: "collect_B w rows ([], []) = (s, lookups)"
    by (cases "collect_B w rows ([], [])")
  obtain out sends where d: "dispatch_B w found s = (out, sends)"
    by (cases "dispatch_B w found s")
  have h: "handler_B w req = (out, evs @ lookups @ sends)"
    using assms c d by (simp add: handler_B_def)
  have r: "recipients_B w rows = s"
    using c by (simp add: recipients_B_def)
  have e: "sent_to evs = []" "looked_up evs = []"
    using assms sent_to_prepare_B [of w req] looked_up_prepare_B [of w req] by simp_all
  have l: "sent_to lookups = []"
    using sent_to_collect_B [of w rows "[]" "[]"] c by simp
  have "sends = map Send (requests_B w found s)"
    using d by (auto simp: dispatch_B_def split: prod.splits)
  then have t: "sent_to sends = s" "looked_up sends = []"
    by (simp_all add: sent_to_Send to_requests_B looked_up_Send)
  show "fst (handler_B w req) = fst (dispatch_B w found (recipients_B w rows))"
    by (simp add: h r d)
  show "sent_to (snd (handler_B w req)) = recipients_B w rows"
    by (simp add: h r e l t sent_to_append)
  show "looked_up (snd (handler_B w req)) = looked_up (snd (collect_B w rows ([], [])))"
    by (simp add: h c e t looked_up_append)
qed

lemma distinct_sent_A: "distinct (sent_to (snd (handler_A w req)))"
proof (cases "prepare_A w req")
  case (Pair r evs)
  show ?thesis
  proof (cases r)
    case (Inl early)
    with Pair sent_to_prepare_A [of w req] show ?thesis
      by (simp add: handler_A_early)
  next
    case (Inr fr)
    with Pair have "prepare_A w req = (Inr (fst fr, snd fr), evs)" by simp
    from handler_A_reached(2) [OF this] show ?thesis
      by (simp add: sent_to_dispatch_A distinct_recipients_A)
  qed
qed

lemma distinct_sent_B: "distinct (sent_to (snd (handler_B w req)))"
proof (cases "prepare_B w req")
  case (Pair r evs)
  show ?thesis
  proof (cases r)
    case (Inl early)
    with Pair sent_to_prepare_B [of w req] show ?thesis
      by (simp add: handler_B_early)
  next
    case (Inr fr)
    with Pair have "prepare_B w req = (Inr (fst fr, snd fr), evs)" by simp
    from handler_B_reached(2) [OF this] show ?thesis
      by (simp add: distinct_recipients_B)
  qed
qed

subsection \<open>The scenario, evaluated\<close>

lemma scenario_prepare_A:
  "prepare_A (scenario full_env rows provider) (post_A iphone)
     = (Inr (iphone, rows), [Select (lost_query_A iphone)])"
  "prepare_A (scenario keyless_env rows provider) (post_A iphone)
     = (Inr (iphone, rows), [Select (lost_query_A iphone)])"
  by (simp_all add: prepare_A_def scenario_facts)

lemma scenario_prepare_B:
  "list_all (\<lambda>r. l_user_id r \<noteq> js ''u1'') rows \<Longrightarrow>
   prepare_B (scenario full_env rows provider) (post_B ''f1'')
     = (Inr (iphone, rows),
        [Select_single (found_query_B (js ''f1'')), Select (lost_query_B iphone)])"
  by (simp add: prepare_B_def scenario_facts list_all_iff cong: filter_cong)

lemma scenario_recipients_A:
  "recipients_A (scenario e rows' provider) iphone duplicate_candidates = [js ''a@b.com'', js ''c@d.com'']"
  "recipients_A (scenario e rows' provider) iphone two_candidates = [js ''a@b.com'', js ''c@d.com'']"
  "recipients_A (scenario e rows' provider) iphone unreachable_candidates = []"
  "recipients_A (scenario e rows' provider) iphone with_unreachable = [js ''a@b.com'']"
  "recipients_A (scenario e rows' provider) iphone own_and_other = [js ''a@b.com'']"
  "recipients_A (scenario e rows' provider) iphone dotless_candidates = [js ''c@d.com'']"
  by (simp_all add: recipients_A_def scenario_facts candidate_lists)

lemma scenario_recipients_B:
  "recipients_B (scenario e rows' provider) duplicate_candidates = [js ''a@b.com'', js ''c@d.com'']"
  "recipients_B (scenario e rows' provider) two_candidates = [js ''a@b.com'', js ''c@d.com'']"
  "recipients_B (scenario e rows' provider) unreachable_candidates = []"
  "recipients_B (scenario e rows' provider) with_unreachable = [js ''a@b.com'']"
  "recipients_B (scenario e rows' provider) dotless_candidates = [js ''a@b'']"
  by (simp_all add: recipients_B_def scenario_facts candidate_lists)

lemma scenario_owners:
  "list_all (\<lambda>r. l_user_id r \<noteq> js ''u1'') duplicate_candidates"
  "list_all (\<lambda>r. l_user_id r \<noteq> js ''u1'') two_candidates"
  "list_all (\<lambda>r. l_user_id r \<noteq> js ''u1'') unreachable_candidates"
  "list_all (\<lambda>r. l_user_id r \<noteq> js ''u1'') with_unreachable"
  "list_all (\<lambda>r. l_user_id r \<noteq> js ''u1'') dotless_candidates"
  by (simp_all add: scenario_facts candidate_lists)

lemma dispatch_A_empty:
  "dispatch_A w found [] = (respond 200 (Message_recipients (js ''No recipients to notify'') []), [])"
  by (simp add: dispatch_A_def)

lemma dispatch_A_keyless:
  "toList \<noteq> [] \<Longrightarrow> \<not> truthy (env w ''RESEND_API_KEY'') \<Longrightarrow>
   dispatch_A w found toList =
     (respond 200 (Would_notify (js ''Email provider not configured. Set RESEND_API_KEY and FROM_EMAIL.'')
        toList (fst (composeEmail found))), [])"
  by (simp add: dispatch_A_def)

lemma dispatch_B_empty:
  "dispatch_B w found [] = (respond 200 (Summary (f_category found) 0 0 []), [])"
  by (simp add: dispatch_B_def requests_B_def)

lemma prepare_A_early_body:
  "prepare_A w req = (Inl early, evs) \<Longrightarrow> body early \<noteq> Would_notify message wouldNotify subject"
  by (auto simp: prepare_A_def split: if_splits parsed.splits option.splits sum.splits)

lemma dispatch_A_would_notify:
  "fst (dispatch_A w found toList) = respond 200 (Would_notify message wouldNotify subject) \<Longrightarrow>
   wouldNotify = toList \<and> toList \<noteq> [] \<and> \<not> truthy (env w ''RESEND_API_KEY'')"
  by (auto simp: dispatch_A_def respond_def split: if_splits sum.splits)

lemma handler_A_would_notify:
  assumes "fst (handler_A w req) = respond 200 (Would_notify message wouldNotify subject)"
  shows "wouldNotify \<noteq> [] \<and> \<not> truthy (env w ''RESEND_API_KEY'')"
proof (cases "prepare_A w req")
  case (Pair r evs)
  show ?thesis
  proof (cases r)
    case (Inl early)
    with Pair assms prepare_A_early_body [of w req early evs message wouldNotify subject]
    show ?thesis
      by (simp add: handler_A_early respond_def)
  next
    case (Inr fr)
    with Pair have p: "prepare_A w req = (Inr (fst fr, snd fr), evs)" by simp
    from assms handler_A_reached(1) [OF p] dispatch_A_would_notify show ?thesis
      by metis
  qed
qed

lemma scenario_keyless:
  "\<not> truthy (env (scenario keyless_env rows provider) ''RESEND_API_KEY'')"
  by (simp add: scenario_facts)

lemma scenario_would_notify:
  "fst (handler_A (scenario keyless_env two_candidates accepting) (post_A iphone))
     = respond 200 (Would_notify (js ''Email provider not configured. Set RESEND_API_KEY and FROM_EMAIL.'')
         [js ''a@b.com'', js ''c@d.com''] (fst (composeEmail iphone)))"
  "sent_to (snd (handler_A (scenario keyless_env two_candidates accepting) (post_A iphone))) = []"
  using handler_A_reached(1,2) [OF scenario_prepare_A(2) [of two_candidates accepting]]
  by (simp_all add: scenario_recipients_A dispatch_A_keyless scenario_keyless)

lemma scenario_keyless_B:
  "handler_B (scenario keyless_env rows provider) (post_B ident)
     = (respond 500 (Error (js ''Missing RESEND_API_KEY secret'') None), [])"
  by (simp add: handler_B_def prepare_B_def respond_def scenario_facts)

subsection \<open>The e-mail shape\<close>

lemma regex_test_units:
  "regex_test ps s \<Longrightarrow> c \<in> set s \<Longrightarrow> \<exists>p \<in> set ps. atom_ok (atom_of p) c"
  by (induction ps s rule: regex_test.induct) auto

lemma regex_test_literal:
  "regex_test ps s \<Longrightarrow> Once (Unit u) \<in> set ps \<Longrightarrow> u \<in> set s"
  by (induction ps s rule: regex_test.induct) auto

lemma not_ws_at_sign: "\<not> is_ws at_sign"
  by (simp add: is_ws_def ws_units_def at_sign_def)

lemma not_ws_full_stop: "\<not> is_ws full_stop"
  by (simp add: is_ws_def ws_units_def full_stop_def)

lemma emailRegex_no_ws:
  assumes "regex_test emailRegex s" and "c \<in> set s"
  shows "\<not> is_ws c"
  using regex_test_units [OF assms] not_ws_at_sign not_ws_full_stop
  by (auto simp: emailRegex_def)

lemma emailRegex_includes_at: "regex_test emailRegex s \<Longrightarrow> includes_at s"
  using regex_test_literal [of emailRegex s at_sign]
  by (simp add: emailRegex_def includes_at_def)

lemma emailRegex_nonempty: "regex_test emailRegex s \<Longrightarrow> s \<noteq> []"
  by (auto simp: emailRegex_def)

lemma dropWhile_none: "\<forall>c \<in> set s. \<not> P c \<Longrightarrow> dropWhile P s = s"
  by (cases s) auto

lemma trim_no_ws: "\<forall>c \<in> set s. \<not> is_ws c \<Longrightarrow> trim s = s"
  by (simp add: trim_def dropWhile_none)

lemma trim_emailRegex: "regex_test emailRegex s \<Longrightarrow> trim s = s"
  by (rule trim_no_ws) (blast dest: emailRegex_no_ws)

lemma set_trim: "set (trim s) \<subseteq> set s"
  by (auto simp: trim_def dest!: set_dropWhileD)

lemma isEmail_shape: "regex_test emailRegex s \<Longrightarrow> isEmail (Some s)"
  by (simp add: isEmail_def truthy_def the_string_def trim_emailRegex emailRegex_nonempty)

lemma isEmail_has_at: "isEmail v \<Longrightarrow> contact_has_at v"
proof -
  assume e: "isEmail v"
  then obtain s where v: "v = Some s" and s: "s \<noteq> []" and m: "regex_test emailRegex (trim s)"
    by (cases v) (auto simp: isEmail_def truthy_def the_string_def split: if_splits)
  from emailRegex_includes_at [OF m] set_trim [of s] have "includes_at s"
    by (auto simp: includes_at_def)
  with v s show ?thesis
    by (simp add: contact_has_at_def truthy_def the_string_def)
qed

lemma shape_has_at: "regex_test emailRegex s \<Longrightarrow> contact_has_at (Some s)"
  by (rule isEmail_has_at) (rule isEmail_shape)

subsection \<open>The loops\<close>

lemma collect_A_append:
  "collect_A found (xs @ ys) st = collect_A found ys (collect_A found xs st)"
proof (induction xs arbitrary: st)
  case Nil
  then show ?case by (cases st) simp
next
  case (Cons x xs)
  then show ?case by (cases st) simp
qed

lemma fst_collect_A_indep:
  "fst (collect_A found rows (r, m)) = fst (collect_A found rows (r, m'))"
  by (induction rows arbitrary: r m m') auto

lemma snd_collect_A_indep:
  "snd (collect_A found rows (r, m)) = snd (collect_A found rows (r', m))"
  by (induction rows arbitrary: r r' m) auto

lemma collect_A_keeps: "x \<in> set r \<Longrightarrow> x \<in> set (fst (collect_A found rows (r, m)))"
  by (induction rows arbitrary: r m) (auto simp: set_set_add)

lemma resolve_A_keeps: "x \<in> set r \<Longrightarrow> x \<in> set (resolve_A w uids r)"
  by (induction uids arbitrary: r) (auto simp: set_set_add split: lookup_result.splits)

lemma collect_B_append:
  "collect_B w (xs @ ys) st = collect_B w ys (collect_B w xs st)"
proof (induction xs arbitrary: st)
  case Nil
  then show ?case by (cases st) simp
next
  case (Cons x xs)
  then show ?case by (cases st) (simp split: lookup_result.splits)
qed

lemma collect_B_keeps: "x \<in> set s \<Longrightarrow> x \<in> set (fst (collect_B w rows (s, evs)))"
  by (induction rows arbitrary: s evs) (auto simp: set_set_add split: lookup_result.splits)

lemma looked_up_collect_B:
  "looked_up (snd (collect_B w rows (s, evs))) = looked_up evs @ looked_up (snd (collect_B w rows (s', [])))"
proof (induction rows arbitrary: s s' evs)
  case Nil
  then show ?case by simp
next
  case (Cons li lis)
  have step: "\<And>t t' es. looked_up (snd (collect_B w lis (t, es @ [Get_user (l_user_id li)])))
      = looked_up es @ looked_up (snd (collect_B w lis (t', [Get_user (l_user_id li)])))"
  proof -
    fix t t' es
    show "looked_up (snd (collect_B w lis (t, es @ [Get_user (l_user_id li)])))
      = looked_up es @ looked_up (snd (collect_B w lis (t', [Get_user (l_user_id li)])))"
      using Cons.IH [of t "es @ [Get_user (l_user_id li)]" t']
        Cons.IH [of t' "[Get_user (l_user_id li)]" t']
      by (simp add: looked_up_append)
  qed
  show ?case
    using Cons.IH [of _ evs _] step [of _ evs _] step [of _ "[]" _]
    by (auto split: lookup_result.splits)
qed

lemma collect_A_direct:
  "l_user_id item \<noteq> f_user_id found \<Longrightarrow> l_contact_info item = Some contact \<Longrightarrow>
   regex_test emailRegex contact \<Longrightarrow>
   collect_A found (item # items) (recipients, missing)
     = collect_A found items (set_add contact recipients, missing)"
  by (simp add: isEmail_shape trim_emailRegex the_string_def)

lemma collect_B_direct:
  "l_contact_info item = Some contact \<Longrightarrow> regex_test emailRegex contact \<Longrightarrow>
   collect_B w (item # items) (toEmailsSet, evs)
     = collect_B w items (set_add contact toEmailsSet, evs)"
  using shape_has_at [of contact]
  by (simp add: trim_emailRegex contact_has_at_def the_string_def)

lemma scenario_first_candidate:
  "regex_test emailRegex (js ''a@b.com'')"
  "l_contact_info (lost_row_of ''l2'' ''u2'' (Some (js ''a@b.com''))) = Some (js ''a@b.com'')"
  "l_user_id (lost_row_of ''l2'' ''u2'' (Some (js ''a@b.com''))) \<noteq> f_user_id iphone"
  "[] @ lost_row_of ''l2'' ''u2'' (Some (js ''a@b.com'')) # [lost_row_of ''l3'' ''u3'' None]
     = two_candidates"
    apply (simp add: unfold_strings)
   apply (simp_all add: scenario_facts candidate_lists)
  done

lemma scenario_lookups:
  "snd (collect_A iphone [lost_row_of ''l3'' ''u3'' None] ([], [])) = [js ''u3'']"
  "looked_up (snd (collect_B (scenario e rows provider) [lost_row_of ''l3'' ''u3'' None] ([], [])))
     = [js ''u3'']"
  by (simp_all add: scenario_facts)

subsection \<open>The finder's own items\<close>

lemma collect_A_skips_own:
  "collect_A found rows st
     = collect_A found (filter (\<lambda>item. l_user_id item \<noteq> f_user_id found) rows) st"
proof (induction rows arbitrary: st)
  case Nil
  then show ?case by simp
next
  case (Cons item items)
  then show ?case by (cases st) simp
qed

lemma recipients_A_skips_own:
  "recipients_A w found rows
     = recipients_A w found (filter (\<lambda>item. l_user_id item \<noteq> f_user_id found) rows)"
  using collect_A_skips_own [of found rows "([], [])"]
  by (simp add: recipients_A_def)

lemma prepare_B_rows:
  assumes "prepare_B w req = (Inr (foundItem, rows), evs)"
  shows "select_rows w (lost_query_B foundItem) = Inr None \<and> rows = []
       \<or> select_rows w (lost_query_B foundItem) = Inr (Some rows)"
  using assms
  by (auto simp: prepare_B_def split: if_splits parsed.splits body_B.splits option.splits sum.splits)

lemma honoured_neq:
  assumes "honours w (lost_query_B foundItem)" and "f_user_id foundItem \<noteq> []"
    and "select_rows w (lost_query_B foundItem) = Inr (Some rows)"
  shows "list_all (\<lambda>r. l_user_id r \<noteq> f_user_id foundItem) rows"
  using assms
  by (auto simp: honours_def lost_query_B_def list_all_iff)

lemma scenario_honours: "honours (scenario e rows provider) q"
  by (simp add: honours_def scenario_sel list_all_iff)

lemma scenario_own_and_other:
  "filter (\<lambda>item. l_user_id item \<noteq> f_user_id iphone) own_and_other
     = [lost_row_of ''l2'' ''u2'' (Some (js ''a@b.com''))]"
  "collect_A iphone [lost_row_of ''l2'' ''u2'' (Some (js ''a@b.com''))] ([], []) = ([js ''a@b.com''], [])"
  "recipients_A (scenario e rows provider) iphone [lost_row_of ''l2'' ''u2'' (Some (js ''a@b.com''))]
     = [js ''a@b.com'']"
  "f_user_id iphone \<noteq> []"
  "prepare_B (scenario full_env own_and_other provider) (post_B ''f1'')
     = (Inr (iphone, [lost_row_of ''l2'' ''u2'' (Some (js ''a@b.com''))]),
        [Select_single (found_query_B (js ''f1'')), Select (lost_query_B iphone)])"
  "list_all (\<lambda>r. l_user_id r \<noteq> f_user_id iphone) [lost_row_of ''l2'' ''u2'' (Some (js ''a@b.com''))]"
  by (simp_all add: scenario_facts candidate_lists recipients_A_def prepare_B_def)

subsection \<open>Lookups that fail\<close>

lemma filter_set_add:
  "filter (\<lambda>u. u \<noteq> x) (set_add y m)
     = (if y = x then filter (\<lambda>u. u \<noteq> x) m else set_add y (filter (\<lambda>u. u \<noteq> x) m))"
  by (auto simp: set_add_def)

lemma collect_A_missing_filter:
  "filter (\<lambda>u. u \<noteq> x) m1 = filter (\<lambda>u. u \<noteq> x) m2 \<Longrightarrow>
   filter (\<lambda>u. u \<noteq> x) (snd (collect_A found rows (r1, m1)))
     = filter (\<lambda>u. u \<noteq> x) (snd (collect_A found rows (r2, m2)))"
proof (induction rows arbitrary: r1 r2 m1 m2)
  case Nil
  then show ?case by simp
next
  case (Cons item items)
  have "filter (\<lambda>u. u \<noteq> x) (set_add (l_user_id item) m1)
          = filter (\<lambda>u. u \<noteq> x) (set_add (l_user_id item) m2)"
    using Cons.prems by (simp add: filter_set_add)
  with Cons show ?case by simp
qed

lemma resolve_A_failed:
  "lookup_failed (getUserById w x) \<Longrightarrow>
   resolve_A w m r = resolve_A w (filter (\<lambda>u. u \<noteq> x) m) r"
  by (induction m arbitrary: r) (auto split: lookup_result.splits)

lemma recipients_A_failed:
  assumes failed: "lookup_failed (getUserById w (l_user_id c))"
    and shape: "\<not> isEmail (l_contact_info c)"
  shows "recipients_A w found (xs @ c # ys) = recipients_A w found (xs @ ys)"
proof -
  let ?x = "l_user_id c"
  obtain r1 m1 where c1: "collect_A found xs ([], []) = (r1, m1)"
    by (cases "collect_A found xs ([], [])")
  have without: "collect_A found (xs @ ys) ([], []) = collect_A found ys (r1, m1)"
    by (simp only: collect_A_append c1)
  have "\<exists>m1'. collect_A found (c # ys) (r1, m1) = collect_A found ys (r1, m1')
          \<and> filter (\<lambda>u. u \<noteq> ?x) m1' = filter (\<lambda>u. u \<noteq> ?x) m1"
    using shape by (auto simp: filter_set_add)
  then obtain m1' where step: "collect_A found (c # ys) (r1, m1) = collect_A found ys (r1, m1')"
    and same: "filter (\<lambda>u. u \<noteq> ?x) m1' = filter (\<lambda>u. u \<noteq> ?x) m1"
    by blast
  have whole: "collect_A found (xs @ c # ys) ([], []) = collect_A found ys (r1, m1')"
    by (simp only: collect_A_append c1 step)
  obtain r m where a: "collect_A found ys (r1, m1') = (r, m)"
    by (cases "collect_A found ys (r1, m1')")
  obtain r' m' where b: "collect_A found ys (r1, m1) = (r', m')"
    by (cases "collect_A found ys (r1, m1)")
  have "r = r'"
    using fst_collect_A_indep [of found ys r1 m1' m1] a b by simp
  moreover have "filter (\<lambda>u. u \<noteq> ?x) m = filter (\<lambda>u. u \<noteq> ?x) m'"
    using collect_A_missing_filter [OF same, of found ys r1 r1] a b by simp
  ultimately have "resolve_A w m r = resolve_A w m' r'"
    using resolve_A_failed [OF failed, of m r] resolve_A_failed [OF failed, of m' r'] by simp
  then show ?thesis
    by (simp add: recipients_A_def whole without a b)
qed

lemma recipients_B_failed:
  assumes failed: "lookup_failed (getUserById w (l_user_id c))"
    and shape: "\<not> contact_has_at (l_contact_info c)"
  shows "recipients_B w (xs @ c # ys) = recipients_B w (xs @ ys)"
proof -
  obtain s1 e1 where c1: "collect_B w xs ([], []) = (s1, e1)"
    by (cases "collect_B w xs ([], [])")
  have "\<exists>e1'. collect_B w (c # ys) (s1, e1) = collect_B w ys (s1, e1')"
    using failed shape
    by (cases "getUserById w (l_user_id c)") (auto simp: contact_has_at_def)
  then obtain e1' where step: "collect_B w (c # ys) (s1, e1) = collect_B w ys (s1, e1')"
    by blast
  have "fst (collect_B w (xs @ c # ys) ([], [])) = fst (collect_B w ys (s1, e1'))"
    by (simp only: collect_B_append c1 step)
  also have "\<dots> = fst (collect_B w ys (s1, e1))"
    by (rule fst_collect_B_indep)
  also have "\<dots> = fst (collect_B w (xs @ ys) ([], []))"
    by (simp only: collect_B_append c1)
  finally show ?thesis
    by (simp add: recipients_B_def)
qed

lemma dispatch_B_responds:
  "fst (dispatch_B w foundItem toEmails)
     = respond 200 (Summary (f_category foundItem) (length toEmails)
         (fst (send_B w (requests_B w foundItem toEmails) (0, [])))
         (snd (send_B w (requests_B w foundItem toEmails) (0, []))))"
  by (simp add: dispatch_B_def split: prod.splits)

lemma scenario_unreachable:
  "lookup_failed (getUserById (scenario e rows provider) (l_user_id (lost_row_of ''l9'' ''u9'' None)))"
  "\<not> isEmail (l_contact_info (lost_row_of ''l9'' ''u9'' None))"
  "\<not> contact_has_at (l_contact_info (lost_row_of ''l9'' ''u9'' None))"
  "[lost_row_of ''l2'' ''u2'' (Some (js ''a@b.com''))] @ lost_row_of ''l9'' ''u9'' None # []
     = with_unreachable"
  "recipients_A (scenario e rows provider) iphone ([lost_row_of ''l2'' ''u2'' (Some (js ''a@b.com''))] @ [])
     = [js ''a@b.com'']"
  "recipients_B (scenario e rows provider) ([lost_row_of ''l2'' ''u2'' (Some (js ''a@b.com''))] @ [])
     = [js ''a@b.com'']"
  by (simp_all add: scenario_facts candidate_lists recipients_A_def recipients_B_def
      contact_has_at_def)

lemma scenario_accepting_one:
  "fst (dispatch_A (scenario full_env rows accepting) iphone [js ''a@b.com''])
     = respond 200 (Successes_failures [js ''a@b.com''] [])"
  "fst (dispatch_B (scenario full_env rows accepting) iphone [js ''a@b.com''])
     = respond 200 (Summary (js ''Electronics'') 1 1 [])"
  by (simp_all add: dispatch_A_def dispatch_B_def requests_A_def requests_B_def request_A_def
      request_B_def send_A_def scenario_facts accepting_def)

subsection \<open>Deliveries\<close>

lemma promise_all_send_A:
  "list_all (\<lambda>rq. \<not> fetch_threw (fetch w rq)) rqs \<Longrightarrow>
   \<exists>results. promise_all (map (send_A w) rqs) = Inr results
     \<and> map d_to results = map m_to rqs
     \<and> map d_ok results = map (\<lambda>rq. fetch_ok (fetch w rq)) rqs"
proof (induction rqs)
  case Nil
  then show ?case by simp
next
  case (Cons rq rqs)
  then obtain results where r: "promise_all (map (send_A w) rqs) = Inr results"
    "map d_to results = map m_to rqs" "map d_ok results = map (\<lambda>rq. fetch_ok (fetch w rq)) rqs"
    by auto
  from Cons.prems obtain ok answer where f: "fetch w rq = Fetch_response ok answer"
    by (cases "fetch w rq") auto
  then obtain d where d: "send_A w rq = Inr d" "d_to d = m_to rq" "d_ok d = ok"
    by (simp add: send_A_def)
  show ?case
    using r f d by simp
qed

lemma promise_all_rejects:
  "\<not> list_all (\<lambda>rq. \<not> fetch_threw (fetch w rq)) rqs \<Longrightarrow>
   \<exists>reasons. promise_all (map (send_A w) rqs) = Inl reasons \<and> reasons \<noteq> []"
proof (induction rqs)
  case Nil
  then show ?case by simp
next
  case (Cons rq rqs)
  show ?case
  proof (cases "fetch w rq")
    case (Fetch_throws m)
    then have "send_A w rq = Inl m"
      by (simp add: send_A_def)
    then show ?thesis
      by (cases "promise_all (map (send_A w) rqs)") simp_all
  next
    case (Fetch_response ok answer)
    then obtain d where "send_A w rq = Inr d"
      by (simp add: send_A_def)
    with Fetch_response Cons show ?thesis by auto
  qed
qed

lemma filter_by_flags:
  "map f xs = map g ys \<Longrightarrow> map p xs = map q ys \<Longrightarrow>
   map f (filter p xs) = map g (filter q ys)"
proof (induction xs arbitrary: ys)
  case Nil
  then show ?case by simp
next
  case (Cons x xs)
  then obtain y ys' where "ys = y # ys'" by (cases ys) auto
  with Cons show ?case by auto
qed

lemma dispatch_A_delivers:
  assumes "toList \<noteq> []" and "truthy (env w ''RESEND_API_KEY'')"
    and "list_all (\<lambda>to. \<not> fetch_threw (fetch w (request_A w found to))) toList"
  shows "\<exists>failures. fst (dispatch_A w found toList)
           = respond 200 (Successes_failures
               (filter (\<lambda>to. fetch_ok (fetch w (request_A w found to))) toList) failures)
         \<and> map d_to failures = filter (\<lambda>to. \<not> fetch_ok (fetch w (request_A w found to))) toList"
proof -
  let ?rqs = "requests_A w found toList"
  have "list_all (\<lambda>rq. \<not> fetch_threw (fetch w rq)) ?rqs"
    using assms(3) by (simp add: requests_A_def list_all_iff)
  from promise_all_send_A [OF this] obtain results where
    r: "promise_all (map (send_A w) ?rqs) = Inr results"
    and t: "map d_to results = map m_to ?rqs"
    and k: "map d_ok results = map (\<lambda>rq. fetch_ok (fetch w rq)) ?rqs"
    by blast
  have t': "map d_to results = map id toList"
    using t by (simp add: to_requests_A)
  have k': "map d_ok results = map (\<lambda>to. fetch_ok (fetch w (request_A w found to))) toList"
    using k by (simp add: requests_A_def comp_def)
  have "map d_to (filter d_ok results)
          = map id (filter (\<lambda>to. fetch_ok (fetch w (request_A w found to))) toList)"
    by (rule filter_by_flags [OF t' k'])
  moreover have "map d_to (filter (\<lambda>r. \<not> d_ok r) results)
          = map id (filter (\<lambda>to. \<not> fetch_ok (fetch w (request_A w found to))) toList)"
  proof (rule filter_by_flags [OF t'])
    show "map (\<lambda>r. \<not> d_ok r) results
            = map (\<lambda>to. \<not> fetch_ok (fetch w (request_A w found to))) toList"
      using arg_cong [OF k', of "map Not"] by (simp add: comp_def)
  qed
  ultimately show ?thesis
    using assms(1,2) r
    by (auto simp: dispatch_A_def intro!: exI [of _ "filter (\<lambda>r. \<not> d_ok r) results"])
qed

lemma dispatch_A_rejects:
  assumes "toList \<noteq> []" and "truthy (env w ''RESEND_API_KEY'')"
    and "\<not> list_all (\<lambda>to. \<not> fetch_threw (fetch w (request_A w found to))) toList"
  shows "\<exists>reasons. fst (dispatch_A w found toList) = Inl (Unhandled_rejection reasons)
           \<and> reasons \<noteq> []"
proof -
  have "\<not> list_all (\<lambda>rq. \<not> fetch_threw (fetch w rq)) (requests_A w found toList)"
    using assms(3) by (simp add: requests_A_def list_all_iff)
  from promise_all_rejects [OF this] show ?thesis
    using assms(1,2) by (auto simp: dispatch_A_def)
qed

lemma send_B_records:
  "fst (send_B w rqs (sent, failures)) = sent + length (filter (\<lambda>rq. fetch_ok (fetch w rq)) rqs)
   \<and> map e_to (snd (send_B w rqs (sent, failures)))
     = map e_to failures @ map m_to (filter (\<lambda>rq. \<not> fetch_ok (fetch w rq)) rqs)"
proof (induction rqs arbitrary: sent failures)
  case Nil
  then show ?case by simp
next
  case (Cons rq rqs)
  show ?case
  proof (cases "fetch w rq")
    case (Fetch_throws m)
    with Cons [of sent "failures @ [\<lparr>e_to = m_to rq, e_error = m\<rparr>]"]
    show ?thesis by simp
  next
    case (Fetch_response ok answer)
    show ?thesis
    proof (cases answer)
      case (Text errText)
      with Fetch_response Cons [of "sent + 1" failures]
        Cons [of sent "failures @ [\<lparr>e_to = m_to rq, e_error = errText\<rparr>]"]
      show ?thesis by simp
    next
      case (Text_throws m)
      with Fetch_response Cons [of "sent + 1" failures]
        Cons [of sent "failures @ [\<lparr>e_to = m_to rq, e_error = m\<rparr>]"]
      show ?thesis by simp
    qed
  qed
qed

lemma dispatch_B_delivers:
  "\<exists>failures. fst (dispatch_B w foundItem toEmails)
       = respond 200 (Summary (f_category foundItem) (length toEmails)
           (length (filter (\<lambda>to. fetch_ok (fetch w (request_B w foundItem to))) toEmails)) failures)
     \<and> map e_to failures = filter (\<lambda>to. \<not> fetch_ok (fetch w (request_B w foundItem to))) toEmails"
proof -
  let ?rqs = "requests_B w foundItem toEmails"
  have a: "length (filter (\<lambda>rq. fetch_ok (fetch w rq)) ?rqs)
             = length (filter (\<lambda>to. fetch_ok (fetch w (request_B w foundItem to))) toEmails)"
    by (simp add: requests_B_def filter_map comp_def)
  have b: "map m_to (filter (\<lambda>rq. \<not> fetch_ok (fetch w rq)) ?rqs)
             = filter (\<lambda>to. \<not> fetch_ok (fetch w (request_B w foundItem to))) toEmails"
    by (simp add: requests_B_def filter_map comp_def request_B_def)
  show ?thesis
    using send_B_records [of w ?rqs 0 "[]"] a b
    by (cases "send_B w ?rqs (0, [])") (auto simp: dispatch_B_def)
qed


lemma scenario_requests:
  "fetch (scenario e rows accepting) rq = Fetch_response True (Text [])"
  "fetch (scenario e rows breaking) (request_A w found (js ''a@b.com''))
     = Fetch_throws (js ''connection reset'')"
  "fetch (scenario e rows breaking) (request_A w found (js ''c@d.com''))
     = Fetch_response True (Text [])"
  "fetch (scenario e rows breaking) (request_B w found (js ''a@b.com''))
     = Fetch_throws (js ''connection reset'')"
  "fetch (scenario e rows breaking) (request_B w found (js ''c@d.com''))
     = Fetch_response True (Text [])"
  by (simp_all add: scenario_sel accepting_def breaking_def request_A_def request_B_def js_eq_iff)

lemma scenario_full_key: "truthy (env (scenario full_env rows provider) ''RESEND_API_KEY'')"
  by (simp add: scenario_facts)

lemma scenario_accepting_two:
  "fst (dispatch_A (scenario full_env rows accepting) iphone [js ''a@b.com'', js ''c@d.com''])
     = respond 200 (Successes_failures [js ''a@b.com'', js ''c@d.com''] [])"
  "fst (dispatch_B (scenario full_env rows accepting) iphone [js ''a@b.com'', js ''c@d.com''])
     = respond 200 (Summary (js ''Electronics'') 2 2 [])"
  by (simp_all add: dispatch_A_def dispatch_B_def requests_A_def requests_B_def send_A_def
      scenario_requests scenario_full_key iphone_sel request_A_def numeral_2_eq_2)

lemma scenario_breaking_two:
  "fst (dispatch_A (scenario full_env rows breaking) iphone [js ''a@b.com'', js ''c@d.com''])
     = Inl (Unhandled_rejection [js ''connection reset''])"
  "fst (dispatch_B (scenario full_env rows breaking) iphone [js ''a@b.com'', js ''c@d.com''])
     = respond 200 (Summary (js ''Electronics'') 2 1
         [\<lparr>e_to = js ''a@b.com'', e_error = js ''connection reset''\<rparr>])"
  by (simp_all add: dispatch_A_def dispatch_B_def requests_A_def requests_B_def send_A_def
      scenario_requests scenario_full_key iphone_sel numeral_2_eq_2,
      simp_all add: request_A_def request_B_def)

lemma scenario_two_candidates:
  "[lost_row_of ''l2'' ''u2'' (Some (js ''a@b.com'')), lost_row_of ''l3'' ''u3'' None] = two_candidates"
  by (simp add: two_candidates_def)

subsection \<open>The recipient sets of the two functions\<close>

lemma set_resolve_A:
  "set (resolve_A w uids r) = set r \<union> (\<Union>u \<in> set uids. set (account_emails (getUserById w u)))"
  by (induction uids arbitrary: r) (auto simp: set_set_add split: lookup_result.splits)

lemma set_collect_A:
  "set (fst (collect_A found rows (r, m)))
     = set r \<union> {trim (the_string (l_contact_info x)) | x.
                  x \<in> set rows \<and> l_user_id x \<noteq> f_user_id found \<and> isEmail (l_contact_info x)}"
  "set (snd (collect_A found rows (r, m)))
     = set m \<union> {l_user_id x | x.
                  x \<in> set rows \<and> l_user_id x \<noteq> f_user_id found \<and> \<not> isEmail (l_contact_info x)}"
  by (induction rows arbitrary: r m) (auto simp: set_set_add)

lemma set_collect_B:
  "set (fst (collect_B w rows (s, evs)))
     = set s \<union> {trim (the_string (l_contact_info x)) | x.
                  x \<in> set rows \<and> contact_has_at (l_contact_info x)}
       \<union> (\<Union>x \<in> {x \<in> set rows. \<not> contact_has_at (l_contact_info x) \<and> l_user_id x \<noteq> []}.
            set (account_emails (getUserById w (l_user_id x))))"
  by (induction rows arbitrary: s evs)
    (auto simp: set_set_add contact_has_at_def split: lookup_result.splits)








subsection \<open>What the candidates resolve to\<close>

lemma set_recipients_A:
  "set (recipients_A w found rows) = (\<Union>item \<in> set rows. set (resolves_A w found item))"
proof -
  obtain r m where c: "collect_A found rows ([], []) = (r, m)"
    by (cases "collect_A found rows ([], [])")
  have r: "set r = {trim (the_string (l_contact_info x)) | x.
                  x \<in> set rows \<and> l_user_id x \<noteq> f_user_id found \<and> isEmail (l_contact_info x)}"
    using set_collect_A(1) [of found rows "[]" "[]"] c by simp
  have m: "set m = {l_user_id x | x.
                  x \<in> set rows \<and> l_user_id x \<noteq> f_user_id found \<and> \<not> isEmail (l_contact_info x)}"
    using set_collect_A(2) [of found rows "[]" "[]"] c by simp
  have "set (recipients_A w found rows)
          = set r \<union> (\<Union>u \<in> set m. set (account_emails (getUserById w u)))"
    by (simp add: recipients_A_def c set_resolve_A)
  also have "\<dots> = (\<Union>item \<in> set rows. set (resolves_A w found item))"
  proof (intro set_eqI iffI)
    fix a
    assume "a \<in> set r \<union> (\<Union>u \<in> set m. set (account_emails (getUserById w u)))"
    then consider x where "x \<in> set rows" "l_user_id x \<noteq> f_user_id found"
        "isEmail (l_contact_info x)" "a = trim (the_string (l_contact_info x))"
      | x where "x \<in> set rows" "l_user_id x \<noteq> f_user_id found"
        "\<not> isEmail (l_contact_info x)" "a \<in> set (account_emails (getUserById w (l_user_id x)))"
      unfolding r m by blast
    then show "a \<in> (\<Union>item \<in> set rows. set (resolves_A w found item))"
    proof cases
      case 1
      then have "a \<in> set (resolves_A w found x)"
        by (simp add: resolves_A_def)
      with 1(1) show ?thesis by blast
    next
      case 2
      then have "a \<in> set (resolves_A w found x)"
        by (simp add: resolves_A_def)
      with 2(1) show ?thesis by blast
    qed
  next
    fix a
    assume "a \<in> (\<Union>item \<in> set rows. set (resolves_A w found item))"
    then obtain item where i: "item \<in> set rows" "a \<in> set (resolves_A w found item)"
      by blast
    then have o: "l_user_id item \<noteq> f_user_id found"
      by (auto simp: resolves_A_def split: if_splits)
    show "a \<in> set r \<union> (\<Union>u \<in> set m. set (account_emails (getUserById w u)))"
    proof (cases "isEmail (l_contact_info item)")
      case True
      with i o have "a \<in> set r"
        unfolding r by (auto simp: resolves_A_def)
      then show ?thesis by simp
    next
      case False
      with i o have "l_user_id item \<in> set m"
        and "a \<in> set (account_emails (getUserById w (l_user_id item)))"
        unfolding m by (auto simp: resolves_A_def)
      then show ?thesis by blast
    qed
  qed
  finally show ?thesis .
qed

lemma set_recipients_B:
  "set (recipients_B w rows) = (\<Union>li \<in> set rows. set (resolves_B w li))"
  unfolding recipients_B_def set_collect_B
  by (auto simp: resolves_B_def split: if_splits)

lemma count_list_distinct: "distinct xs \<Longrightarrow> x \<in> set xs \<Longrightarrow> count_list xs x = 1"
  by (induction xs) auto

lemma scenario_resolves:
  "lost_row_of ''l3'' ''u3'' None \<in> set duplicate_candidates"
  "resolves_A (scenario e rows provider) iphone (lost_row_of ''l2'' ''u2'' (Some (js ''a@b.com'')))
     = [js ''a@b.com'']"
  "resolves_A (scenario e rows provider) iphone (lost_row_of ''l3'' ''u3'' None) = [js ''c@d.com'']"
  "resolves_A (scenario e rows provider) iphone (lost_row_of ''l4'' ''u4'' (Some (js ''c@d.com'')))
     = [js ''c@d.com'']"
  "resolves_A (scenario e rows provider) iphone (lost_row_of ''l5'' ''u5'' (Some (js ''a@b.com'')))
     = [js ''a@b.com'']"
  "resolves_B (scenario e rows provider) (lost_row_of ''l2'' ''u2'' (Some (js ''a@b.com'')))
     = [js ''a@b.com'']"
  "resolves_B (scenario e rows provider) (lost_row_of ''l3'' ''u3'' None) = [js ''c@d.com'']"
  "resolves_B (scenario e rows provider) (lost_row_of ''l4'' ''u4'' (Some (js ''c@d.com'')))
     = [js ''c@d.com'']"
  "resolves_B (scenario e rows provider) (lost_row_of ''l5'' ''u5'' (Some (js ''a@b.com'')))
     = [js ''a@b.com'']"
  by (simp_all add: resolves_A_def resolves_B_def scenario_facts duplicate_candidates_def
      contact_has_at_def)



section \<open>The claims\<close>

text \<open>
  C6. The final recipient collection contains no duplicate e-mail strings, and an address
  that candidates resolve to is dispatched to exactly once. In both functions the resolved
  recipients are pairwise distinct for every world, found item and list of rows, and so are
  the addresses a run dispatches to; a run that reaches the dispatch sends to exactly the
  resolved recipients; the resolved recipients are exactly the addresses that the rows
  resolve to, by contact string or by account lookup; and so every address that some row
  resolves to occurs exactly once among the addresses dispatched to, however many rows
  resolve to it.
\<close>

theorem recipients_have_no_duplicates:
  "distinct (recipients_A w found rows) \<and> distinct (recipients_B w rows)
   \<and> distinct (sent_to (snd (handler_A w reqA))) \<and> distinct (sent_to (snd (handler_B w reqB)))
   \<and> (prepare_A w reqA = (Inr (found, rows), evsA) \<and> truthy (env w ''RESEND_API_KEY'')
        \<longrightarrow> sent_to (snd (handler_A w reqA)) = recipients_A w found rows)
   \<and> (prepare_B w reqB = (Inr (foundItem, rows), evsB)
        \<longrightarrow> sent_to (snd (handler_B w reqB)) = recipients_B w rows)
   \<and> set (recipients_A w found rows) = (\<Union>item \<in> set rows. set (resolves_A w found item))
   \<and> set (recipients_B w rows) = (\<Union>li \<in> set rows. set (resolves_B w li))
   \<and> (prepare_A w reqA = (Inr (found, rows), evsA) \<and> truthy (env w ''RESEND_API_KEY'')
        \<and> item \<in> set rows \<and> address \<in> set (resolves_A w found item)
        \<longrightarrow> count_list (sent_to (snd (handler_A w reqA))) address = 1)
   \<and> (prepare_B w reqB = (Inr (foundItem, rows), evsB)
        \<and> item \<in> set rows \<and> address \<in> set (resolves_B w item)
        \<longrightarrow> count_list (sent_to (snd (handler_B w reqB))) address = 1)"
proof -
  have sentA: "sent_to (snd (handler_A w reqA)) = recipients_A w found rows"
    if "prepare_A w reqA = (Inr (found, rows), evsA)" and "truthy (env w ''RESEND_API_KEY'')"
    using handler_A_reached(2) [OF that(1)] that(2) by (simp add: sent_to_dispatch_A)
  have sentB: "sent_to (snd (handler_B w reqB)) = recipients_B w rows"
    if "prepare_B w reqB = (Inr (foundItem, rows), evsB)"
    using handler_B_reached(2) [OF that] .
  have onceA: "count_list (sent_to (snd (handler_A w reqA))) address = 1"
    if "prepare_A w reqA = (Inr (found, rows), evsA)" and "truthy (env w ''RESEND_API_KEY'')"
      and "item \<in> set rows" and "address \<in> set (resolves_A w found item)"
  proof (rule count_list_distinct [OF distinct_sent_A])
    show "address \<in> set (sent_to (snd (handler_A w reqA)))"
      unfolding sentA [OF that(1,2)] set_recipients_A using that(3,4) by blast
  qed
  have onceB: "count_list (sent_to (snd (handler_B w reqB))) address = 1"
    if "prepare_B w reqB = (Inr (foundItem, rows), evsB)"
      and "item \<in> set rows" and "address \<in> set (resolves_B w item)"
  proof (rule count_list_distinct [OF distinct_sent_B])
    show "address \<in> set (sent_to (snd (handler_B w reqB)))"
      unfolding sentB [OF that(1)] set_recipients_B using that(2,3) by blast
  qed
  show ?thesis
    using sentA sentB onceA onceB
    by (simp add: distinct_recipients_A distinct_recipients_B distinct_sent_A distinct_sent_B
        set_recipients_A set_recipients_B)
qed

theorem recipients_have_no_duplicates_witness:
  "prepare_A (scenario full_env duplicate_candidates accepting) (post_A iphone)
     = (Inr (iphone, duplicate_candidates), [Select (lost_query_A iphone)])
   \<and> truthy (env (scenario full_env duplicate_candidates accepting) ''RESEND_API_KEY'')
   \<and> prepare_B (scenario full_env duplicate_candidates accepting) (post_B ''f1'')
     = (Inr (iphone, duplicate_candidates),
        [Select_single (found_query_B (js ''f1'')), Select (lost_query_B iphone)])
   \<and> lost_row_of ''l3'' ''u3'' None \<in> set duplicate_candidates
   \<and> resolves_A (scenario full_env duplicate_candidates accepting) iphone
        (lost_row_of ''l3'' ''u3'' None) = [js ''c@d.com'']
   \<and> resolves_A (scenario full_env duplicate_candidates accepting) iphone
        (lost_row_of ''l4'' ''u4'' (Some (js ''c@d.com''))) = [js ''c@d.com'']
   \<and> resolves_B (scenario full_env duplicate_candidates accepting)
        (lost_row_of ''l3'' ''u3'' None) = [js ''c@d.com'']
   \<and> resolves_B (scenario full_env duplicate_candidates accepting)
        (lost_row_of ''l4'' ''u4'' (Some (js ''c@d.com''))) = [js ''c@d.com'']
   \<and> recipients_A (scenario full_env duplicate_candidates accepting) iphone duplicate_candidates
     = [js ''a@b.com'', js ''c@d.com'']
   \<and> recipients_B (scenario full_env duplicate_candidates accepting) duplicate_candidates
     = [js ''a@b.com'', js ''c@d.com'']
   \<and> sent_to (snd (handler_A (scenario full_env duplicate_candidates accepting) (post_A iphone)))
     = [js ''a@b.com'', js ''c@d.com'']
   \<and> sent_to (snd (handler_B (scenario full_env duplicate_candidates accepting) (post_B ''f1'')))
     = [js ''a@b.com'', js ''c@d.com'']
   \<and> count_list
        (sent_to (snd (handler_A (scenario full_env duplicate_candidates accepting) (post_A iphone))))
        (js ''c@d.com'') = 1
   \<and> count_list
        (sent_to (snd (handler_B (scenario full_env duplicate_candidates accepting) (post_B ''f1''))))
        (js ''c@d.com'') = 1"
proof -
  let ?w = "scenario full_env duplicate_candidates accepting"
  have k: "truthy (env ?w ''RESEND_API_KEY'')"
    by (simp add: scenario_facts)
  have m: "js ''c@d.com'' \<in> set [js ''c@d.com'']"
    by simp
  note t = recipients_have_no_duplicates
      [of ?w iphone duplicate_candidates "post_A iphone" "post_B ''f1''"
        "[Select (lost_query_A iphone)]" iphone
        "[Select_single (found_query_B (js ''f1'')), Select (lost_query_B iphone)]"
        "lost_row_of ''l3'' ''u3'' None" "js ''c@d.com''"]
  show ?thesis
    using k m t scenario_resolves(1)
    by (simp only: scenario_prepare_A scenario_prepare_B [OF scenario_owners(1)]
        scenario_recipients_A scenario_recipients_B scenario_resolves(2-) simp_thms)
      (simp add: js_eq_iff)
qed

text \<open>
  C8. For every request whose resolved recipient set is empty, the response has status 200
  and reports an empty recipient list (inline-payload function) or a recipient count of
  zero (identifier-lookup function), and no delivery dispatch is attempted.
\<close>

theorem empty_recipient_set_is_a_normal_outcome:
  "(prepare_A w reqA = (Inr (found, rowsA), evsA) \<and> recipients_A w found rowsA = []
      \<longrightarrow> fst (handler_A w reqA) = respond 200 (Message_recipients (js ''No recipients to notify'') [])
          \<and> sent_to (snd (handler_A w reqA)) = [])
   \<and> (prepare_B w reqB = (Inr (foundItem, rowsB), evsB) \<and> recipients_B w rowsB = []
      \<longrightarrow> fst (handler_B w reqB) = respond 200 (Summary (f_category foundItem) 0 0 [])
          \<and> sent_to (snd (handler_B w reqB)) = [])"
  using handler_A_reached(1,2) [of w reqA found rowsA evsA]
    handler_B_reached(1,2) [of w reqB foundItem rowsB evsB]
  by (simp add: dispatch_A_empty dispatch_B_empty)

theorem empty_recipient_set_is_a_normal_outcome_witness:
  "prepare_A (scenario full_env unreachable_candidates accepting) (post_A iphone)
     = (Inr (iphone, unreachable_candidates), [Select (lost_query_A iphone)])
   \<and> recipients_A (scenario full_env unreachable_candidates accepting) iphone unreachable_candidates = []
   \<and> prepare_B (scenario full_env unreachable_candidates accepting) (post_B ''f1'')
     = (Inr (iphone, unreachable_candidates),
        [Select_single (found_query_B (js ''f1'')), Select (lost_query_B iphone)])
   \<and> recipients_B (scenario full_env unreachable_candidates accepting) unreachable_candidates = []
   \<and> fst (handler_A (scenario full_env unreachable_candidates accepting) (post_A iphone))
     = respond 200 (Message_recipients (js ''No recipients to notify'') [])
   \<and> sent_to (snd (handler_A (scenario full_env unreachable_candidates accepting) (post_A iphone))) = []
   \<and> fst (handler_B (scenario full_env unreachable_candidates accepting) (post_B ''f1''))
     = respond 200 (Summary (js ''Electronics'') 0 0 [])
   \<and> sent_to (snd (handler_B (scenario full_env unreachable_candidates accepting) (post_B ''f1''))) = []"
  using empty_recipient_set_is_a_normal_outcome
      [of "scenario full_env unreachable_candidates accepting" "post_A iphone" iphone
        unreachable_candidates "[Select (lost_query_A iphone)]" "post_B ''f1''" iphone
        unreachable_candidates
        "[Select_single (found_query_B (js ''f1'')), Select (lost_query_B iphone)]"]
  by (simp only: scenario_prepare_A scenario_prepare_B [OF scenario_owners(3)]
      scenario_recipients_A scenario_recipients_B iphone_sel simp_thms)

text \<open>
  C10. In the inline-payload function the empty-recipient check runs before the
  e-mail-credential check: a request that resolves zero recipients is answered 200 with an
  empty recipient list also when \<^verbatim>\<open>RESEND_API_KEY\<close> is absent, and whenever the handler
  answers with the "email provider not configured" body, the list in it is not empty (and
  the key is indeed absent).
\<close>

theorem empty_check_precedes_credential_check:
  "(prepare_A w req = (Inr (found, rows), evs) \<and> recipients_A w found rows = []
      \<and> \<not> truthy (env w ''RESEND_API_KEY'')
      \<longrightarrow> fst (handler_A w req) = respond 200 (Message_recipients (js ''No recipients to notify'') [])) 
   \<and> (fst (handler_A w' req') = respond 200 (Would_notify message wouldNotify subject)
      \<longrightarrow> wouldNotify \<noteq> [] \<and> \<not> truthy (env w' ''RESEND_API_KEY''))"
  using handler_A_reached(1) [of w req found rows evs]
    handler_A_would_notify [of w' req' message wouldNotify subject]
  by (simp add: dispatch_A_empty)

theorem empty_check_precedes_credential_check_witness:
  "prepare_A (scenario keyless_env unreachable_candidates accepting) (post_A iphone)
     = (Inr (iphone, unreachable_candidates), [Select (lost_query_A iphone)])
   \<and> recipients_A (scenario keyless_env unreachable_candidates accepting) iphone unreachable_candidates = []
   \<and> \<not> truthy (env (scenario keyless_env unreachable_candidates accepting) ''RESEND_API_KEY'')
   \<and> fst (handler_A (scenario keyless_env unreachable_candidates accepting) (post_A iphone))
     = respond 200 (Message_recipients (js ''No recipients to notify'') [])
   \<and> fst (handler_A (scenario keyless_env two_candidates accepting) (post_A iphone))
     = respond 200 (Would_notify (js ''Email provider not configured. Set RESEND_API_KEY and FROM_EMAIL.'')
         [js ''a@b.com'', js ''c@d.com''] (fst (composeEmail iphone)))
   \<and> [js ''a@b.com'', js ''c@d.com''] \<noteq> []
   \<and> \<not> truthy (env (scenario keyless_env two_candidates accepting) ''RESEND_API_KEY'')"
  using empty_check_precedes_credential_check
      [of "scenario keyless_env unreachable_candidates accepting" "post_A iphone" iphone
        unreachable_candidates "[Select (lost_query_A iphone)]"
        "scenario keyless_env two_candidates accepting" "post_A iphone"
        "js ''Email provider not configured. Set RESEND_API_KEY and FROM_EMAIL.''"
        "[js ''a@b.com'', js ''c@d.com'']" "fst (composeEmail iphone)"]
    scenario_keyless [of unreachable_candidates accepting]
  by (simp only: scenario_prepare_A scenario_recipients_A scenario_would_notify simp_thms)

text \<open>
  C1, as the code has it. In the inline-payload function a request that resolves a non-empty
  recipient set without \<^verbatim>\<open>RESEND_API_KEY\<close> is answered 200 with the intended recipients
  under \<^verbatim>\<open>wouldNotify\<close> and nothing is sent. In the identifier-lookup function the same
  missing key is a configuration error: a POST with the store configured is answered 500
  before any query, lookup or dispatch.
\<close>

theorem missing_credential_by_variant:
  "(prepare_A w reqA = (Inr (found, rows), evs) \<and> recipients_A w found rows \<noteq> []
      \<and> \<not> truthy (env w ''RESEND_API_KEY'')
      \<longrightarrow> fst (handler_A w reqA)
            = respond 200 (Would_notify
                (js ''Email provider not configured. Set RESEND_API_KEY and FROM_EMAIL.'')
                (recipients_A w found rows) (fst (composeEmail found)))
          \<and> sent_to (snd (handler_A w reqA)) = [])
   \<and> (method_B reqB = ''POST'' \<and> truthy (env w ''SUPABASE_URL'')
      \<and> truthy (env w ''SUPABASE_SERVICE_ROLE_KEY'') \<and> \<not> truthy (env w ''RESEND_API_KEY'')
      \<longrightarrow> handler_B w reqB = (respond 500 (Error (js ''Missing RESEND_API_KEY secret'') None), []))"
  using handler_A_reached(1,2) [of w reqA found rows evs]
  by (simp add: dispatch_A_keyless handler_B_def prepare_B_def respond_def)

theorem missing_credential_by_variant_witness:
  "prepare_A (scenario keyless_env two_candidates accepting) (post_A iphone)
     = (Inr (iphone, two_candidates), [Select (lost_query_A iphone)])
   \<and> recipients_A (scenario keyless_env two_candidates accepting) iphone two_candidates \<noteq> []
   \<and> \<not> truthy (env (scenario keyless_env two_candidates accepting) ''RESEND_API_KEY'')
   \<and> method_B (post_B ''f1'') = ''POST''
   \<and> truthy (env (scenario keyless_env two_candidates accepting) ''SUPABASE_URL'')
   \<and> truthy (env (scenario keyless_env two_candidates accepting) ''SUPABASE_SERVICE_ROLE_KEY'')
   \<and> fst (handler_A (scenario keyless_env two_candidates accepting) (post_A iphone))
     = respond 200 (Would_notify (js ''Email provider not configured. Set RESEND_API_KEY and FROM_EMAIL.'')
         [js ''a@b.com'', js ''c@d.com''] (fst (composeEmail iphone)))
   \<and> sent_to (snd (handler_A (scenario keyless_env two_candidates accepting) (post_A iphone))) = []
   \<and> handler_B (scenario keyless_env two_candidates accepting) (post_B ''f1'')
     = (respond 500 (Error (js ''Missing RESEND_API_KEY secret'') None), [])"
proof -
  have e: "method_B (post_B ''f1'') = ''POST''"
    "truthy (env (scenario keyless_env two_candidates accepting) ''SUPABASE_URL'')"
    "truthy (env (scenario keyless_env two_candidates accepting) ''SUPABASE_SERVICE_ROLE_KEY'')"
    by (simp_all add: scenario_facts)
  show ?thesis
    using e scenario_keyless [of two_candidates accepting] missing_credential_by_variant
      [of "scenario keyless_env two_candidates accepting" "post_A iphone" iphone two_candidates
        "[Select (lost_query_A iphone)]" "post_B ''f1''"]
    by (simp add: scenario_prepare_A scenario_recipients_A)
qed

text \<open>
  C1 as stated fails on the identifier-lookup function: the store holds the found item and
  two candidates that resolve to two recipients, the key is absent, and the answer is 500
  with an error, not a 200 that lists the recipients.
\<close>

theorem missing_credential_is_an_error_in_notify_matches:
  "select_single (scenario keyless_env two_candidates accepting) (found_query_B (js ''f1'')) = Inr iphone
   \<and> select_rows (scenario keyless_env two_candidates accepting) (lost_query_B iphone)
     = Inr (Some two_candidates)
   \<and> recipients_B (scenario keyless_env two_candidates accepting) two_candidates
     = [js ''a@b.com'', js ''c@d.com'']
   \<and> env (scenario keyless_env two_candidates accepting) ''RESEND_API_KEY'' = None
   \<and> handler_B (scenario keyless_env two_candidates accepting) (post_B ''f1'')
     = (Inr \<lparr>status = 500, body = Error (js ''Missing RESEND_API_KEY secret'') None\<rparr>, [])"
proof -
  have "select_rows (scenario keyless_env two_candidates accepting) (lost_query_B iphone)
          = Inr (Some two_candidates)"
    by (simp add: scenario_facts candidate_lists)
  then show ?thesis
    using scenario_keyless_B [of two_candidates accepting "''f1''"]
    by (simp add: scenario_recipients_B scenario_sel keyless_env_values respond_def)
qed

text \<open>
  C5. For every candidate whose stored contact string matches
  \<^verbatim>\<open>^[^\s@]+@[^\s@]+\.[^\s@]+$\<close>, both functions add that string itself to the recipient set
  in the loop step that handles the candidate (in the inline-payload function, when the
  candidate is not the finder's own), and the step records no account to look up: the
  lookups of a whole run are those of the run without that candidate.
\<close>

theorem email_shaped_contact_is_used_directly:
  assumes "regex_test emailRegex contact" and "l_contact_info item = Some contact"
  shows "(l_user_id item \<noteq> f_user_id found \<longrightarrow>
            collect_A found (item # items) (recipients, missing)
              = collect_A found items (set_add contact recipients, missing)
          \<and> contact \<in> set (recipients_A w found (xs @ item # ys))
          \<and> snd (collect_A found (xs @ item # ys) ([], [])) = snd (collect_A found (xs @ ys) ([], []))
          \<and> (prepare_A w reqA = (Inr (found, xs @ item # ys), evsA) \<longrightarrow>
                looked_up (snd (handler_A w reqA)) = snd (collect_A found (xs @ ys) ([], []))))
       \<and> collect_B w (item # items) (toEmailsSet, evs)
              = collect_B w items (set_add contact toEmailsSet, evs)
       \<and> contact \<in> set (recipients_B w (xs @ item # ys))
       \<and> looked_up (snd (collect_B w (xs @ item # ys) ([], [])))
              = looked_up (snd (collect_B w (xs @ ys) ([], [])))
       \<and> (prepare_B w reqB = (Inr (foundItem, xs @ item # ys), evsB) \<longrightarrow>
             looked_up (snd (handler_B w reqB)) = looked_up (snd (collect_B w (xs @ ys) ([], []))))"
proof -
  have A: "collect_A found (item # items) (recipients, missing)
              = collect_A found items (set_add contact recipients, missing)
          \<and> contact \<in> set (recipients_A w found (xs @ item # ys))
          \<and> snd (collect_A found (xs @ item # ys) ([], [])) = snd (collect_A found (xs @ ys) ([], []))
          \<and> (prepare_A w reqA = (Inr (found, xs @ item # ys), evsA) \<longrightarrow>
                looked_up (snd (handler_A w reqA)) = snd (collect_A found (xs @ ys) ([], [])))"
    if other: "l_user_id item \<noteq> f_user_id found"
  proof -
    note step = collect_A_direct [OF other assms(2) assms(1)]
    obtain r1 m1 where c1: "collect_A found xs ([], []) = (r1, m1)"
      by (cases "collect_A found xs ([], [])")
    have whole: "collect_A found (xs @ item # ys) ([], []) = collect_A found ys (set_add contact r1, m1)"
      by (simp only: collect_A_append c1 step)
    have without: "collect_A found (xs @ ys) ([], []) = collect_A found ys (r1, m1)"
      by (simp only: collect_A_append c1)
    have lookups: "snd (collect_A found (xs @ item # ys) ([], [])) = snd (collect_A found (xs @ ys) ([], []))"
      unfolding whole without by (rule snd_collect_A_indep)
    obtain r m where c: "collect_A found (xs @ item # ys) ([], []) = (r, m)"
      by (cases "collect_A found (xs @ item # ys) ([], [])")
    have "contact \<in> set (fst (collect_A found ys (set_add contact r1, m1)))"
      by (rule collect_A_keeps) (simp add: set_set_add)
    moreover have "collect_A found ys (set_add contact r1, m1) = (r, m)"
      using whole c by simp
    ultimately have "contact \<in> set r"
      by simp
    then have member: "contact \<in> set (recipients_A w found (xs @ item # ys))"
      by (simp add: recipients_A_def c resolve_A_keeps)
    show ?thesis
      using step member lookups handler_A_reached(3) [of w reqA found "xs @ item # ys" evsA]
      by simp
  qed
  note stepB = collect_B_direct [OF assms(2) assms(1)]
  obtain s1 e1 where c1: "collect_B w xs ([], []) = (s1, e1)"
    by (cases "collect_B w xs ([], [])")
  have whole: "collect_B w (xs @ item # ys) ([], []) = collect_B w ys (set_add contact s1, e1)"
    by (simp only: collect_B_append c1 stepB)
  have without: "collect_B w (xs @ ys) ([], []) = collect_B w ys (s1, e1)"
    by (simp only: collect_B_append c1)
  have lookupsB: "looked_up (snd (collect_B w (xs @ item # ys) ([], [])))
              = looked_up (snd (collect_B w (xs @ ys) ([], [])))"
    unfolding whole without
    using looked_up_collect_B [of w ys "set_add contact s1" e1 s1]
      looked_up_collect_B [of w ys s1 e1 s1]
    by simp
  have memberB: "contact \<in> set (recipients_B w (xs @ item # ys))"
    unfolding recipients_B_def whole by (rule collect_B_keeps) (simp add: set_set_add)
  show ?thesis
    using A stepB memberB lookupsB handler_B_reached(3) [of w reqB foundItem "xs @ item # ys" evsB]
    by simp
qed

theorem email_shaped_contact_is_used_directly_witness:
  "regex_test emailRegex (js ''a@b.com'')
   \<and> l_contact_info (lost_row_of ''l2'' ''u2'' (Some (js ''a@b.com''))) = Some (js ''a@b.com'')
   \<and> l_user_id (lost_row_of ''l2'' ''u2'' (Some (js ''a@b.com''))) \<noteq> f_user_id iphone
   \<and> prepare_A (scenario full_env two_candidates accepting) (post_A iphone)
       = (Inr (iphone, two_candidates), [Select (lost_query_A iphone)])
   \<and> prepare_B (scenario full_env two_candidates accepting) (post_B ''f1'')
       = (Inr (iphone, two_candidates),
          [Select_single (found_query_B (js ''f1'')), Select (lost_query_B iphone)])
   \<and> js ''a@b.com'' \<in> set (recipients_A (scenario full_env two_candidates accepting) iphone two_candidates)
   \<and> looked_up (snd (handler_A (scenario full_env two_candidates accepting) (post_A iphone)))
       = [js ''u3'']
   \<and> js ''a@b.com'' \<in> set (recipients_B (scenario full_env two_candidates accepting) two_candidates)
   \<and> looked_up (snd (handler_B (scenario full_env two_candidates accepting) (post_B ''f1'')))
       = [js ''u3'']"
  using email_shaped_contact_is_used_directly
      [OF scenario_first_candidate(1,2),
        of iphone "[]" "[]" "[]" "scenario full_env two_candidates accepting" "[]"
        "[lost_row_of ''l3'' ''u3'' None]" "post_A iphone" "[Select (lost_query_A iphone)]"
        "[]" "[]" "post_B ''f1''" iphone
        "[Select_single (found_query_B (js ''f1'')), Select (lost_query_B iphone)]"]
    scenario_first_candidate(1,2,3)
  by (simp only: scenario_first_candidate(4) scenario_prepare_A
      scenario_prepare_B [OF scenario_owners(2)] simp_thms,
      simp only: append_Nil scenario_lookups simp_thms)

text \<open>
  C3. No lost item whose owner is the found item's reporter contributes a recipient. In the
  inline-payload function the loop skips such rows: for every list of returned rows the
  two sets, the resolved recipients, the response and the lookups are those of the rows
  with the reporter's items removed. In the identifier-lookup function the exclusion is the
  \<^verbatim>\<open>.neq("user_id", ...)\<close> filter of the query, chained when the found item has a reporter:
  with a store that honours the query, no row the loop receives is owned by the reporter.
\<close>

theorem reporter_items_are_not_candidates:
  "collect_A found rows ([], [])
     = collect_A found (filter (\<lambda>item. l_user_id item \<noteq> f_user_id found) rows) ([], [])
   \<and> recipients_A w found rows
     = recipients_A w found (filter (\<lambda>item. l_user_id item \<noteq> f_user_id found) rows)
   \<and> (prepare_A w reqA = (Inr (found, rows), evsA) \<longrightarrow>
        fst (handler_A w reqA)
          = fst (dispatch_A w found
                  (recipients_A w found (filter (\<lambda>item. l_user_id item \<noteq> f_user_id found) rows)))
        \<and> looked_up (snd (handler_A w reqA))
          = snd (collect_A found (filter (\<lambda>item. l_user_id item \<noteq> f_user_id found) rows) ([], [])))
   \<and> (f_user_id foundItem \<noteq> [] \<longrightarrow>
        Neq ''user_id'' (f_user_id foundItem) \<in> set (q_filters (lost_query_B foundItem)))
   \<and> (f_user_id foundItem \<noteq> [] \<and> honours w (lost_query_B foundItem)
        \<and> prepare_B w reqB = (Inr (foundItem, rowsB), evsB) \<longrightarrow>
        list_all (\<lambda>r. l_user_id r \<noteq> f_user_id foundItem) rowsB)"
proof -
  have B: "list_all (\<lambda>r. l_user_id r \<noteq> f_user_id foundItem) rowsB"
    if "f_user_id foundItem \<noteq> []" and "honours w (lost_query_B foundItem)"
      and "prepare_B w reqB = (Inr (foundItem, rowsB), evsB)"
    using prepare_B_rows [OF that(3)] honoured_neq [OF that(2,1)] by auto
  show ?thesis
    using handler_A_reached(1,3) [of w reqA found rows evsA] B
      collect_A_skips_own [of found rows "([], [])"] recipients_A_skips_own [of w found rows]
    by (simp add: lost_query_B_def)
qed

theorem reporter_items_are_not_candidates_witness:
  "prepare_A (scenario full_env own_and_other accepting) (post_A iphone)
     = (Inr (iphone, own_and_other), [Select (lost_query_A iphone)])
   \<and> f_user_id iphone \<noteq> []
   \<and> honours (scenario full_env own_and_other accepting) (lost_query_B iphone)
   \<and> prepare_B (scenario full_env own_and_other accepting) (post_B ''f1'')
     = (Inr (iphone, [lost_row_of ''l2'' ''u2'' (Some (js ''a@b.com''))]),
        [Select_single (found_query_B (js ''f1'')), Select (lost_query_B iphone)])
   \<and> collect_A iphone own_and_other ([], []) = ([js ''a@b.com''], [])
   \<and> recipients_A (scenario full_env own_and_other accepting) iphone own_and_other = [js ''a@b.com'']
   \<and> looked_up (snd (handler_A (scenario full_env own_and_other accepting) (post_A iphone))) = []
   \<and> Neq ''user_id'' (f_user_id iphone) \<in> set (q_filters (lost_query_B iphone))
   \<and> list_all (\<lambda>r. l_user_id r \<noteq> f_user_id iphone) [lost_row_of ''l2'' ''u2'' (Some (js ''a@b.com''))]"
  using reporter_items_are_not_candidates
      [of iphone own_and_other "scenario full_env own_and_other accepting" "post_A iphone"
        "[Select (lost_query_A iphone)]" iphone "post_B ''f1''"
        "[lost_row_of ''l2'' ''u2'' (Some (js ''a@b.com''))]"
        "[Select_single (found_query_B (js ''f1'')), Select (lost_query_B iphone)]"]
    scenario_honours [of full_env own_and_other accepting "lost_query_B iphone"]
  by (simp only: scenario_prepare_A scenario_own_and_other snd_conv simp_thms)

text \<open>
  C7. A candidate without a valid-shaped contact string (by the test of the function that
  handles it: \<^verbatim>\<open>isEmail\<close> in the inline-payload function, a non-empty contact with an
  \<^verbatim>\<open>@\<close> in the identifier-lookup function) whose account lookup throws or returns an
  error contributes no recipient and aborts nothing: the resolved recipients are those of
  the other candidates, and the request goes on to dispatch to them. The identifier-lookup
  function then answers 200.
\<close>

theorem failed_lookup_contributes_nothing:
  assumes "lookup_failed (getUserById w (l_user_id c))"
  shows "(\<not> isEmail (l_contact_info c) \<longrightarrow>
            recipients_A w found (xs @ c # ys) = recipients_A w found (xs @ ys)
          \<and> (prepare_A w reqA = (Inr (found, xs @ c # ys), evsA) \<longrightarrow>
               fst (handler_A w reqA) = fst (dispatch_A w found (recipients_A w found (xs @ ys)))))
       \<and> (\<not> contact_has_at (l_contact_info c) \<longrightarrow>
            recipients_B w (xs @ c # ys) = recipients_B w (xs @ ys)
          \<and> (prepare_B w reqB = (Inr (foundItem, xs @ c # ys), evsB) \<longrightarrow>
               fst (handler_B w reqB) = fst (dispatch_B w foundItem (recipients_B w (xs @ ys)))
             \<and> (\<exists>sent failures.
                   fst (handler_B w reqB)
                     = respond 200 (Summary (f_category foundItem)
                         (length (recipients_B w (xs @ ys))) sent failures))))"
  using recipients_A_failed [OF assms, of found xs ys] recipients_B_failed [OF assms, of xs ys]
    handler_A_reached(1) [of w reqA found "xs @ c # ys" evsA]
    handler_B_reached(1) [of w reqB foundItem "xs @ c # ys" evsB]
    dispatch_B_responds [of w foundItem "recipients_B w (xs @ ys)"]
  by auto

theorem failed_lookup_contributes_nothing_witness:
  "lookup_failed (getUserById (scenario full_env with_unreachable accepting)
      (l_user_id (lost_row_of ''l9'' ''u9'' None)))
   \<and> \<not> isEmail (l_contact_info (lost_row_of ''l9'' ''u9'' None))
   \<and> \<not> contact_has_at (l_contact_info (lost_row_of ''l9'' ''u9'' None))
   \<and> prepare_A (scenario full_env with_unreachable accepting) (post_A iphone)
     = (Inr (iphone, with_unreachable), [Select (lost_query_A iphone)])
   \<and> prepare_B (scenario full_env with_unreachable accepting) (post_B ''f1'')
     = (Inr (iphone, with_unreachable),
        [Select_single (found_query_B (js ''f1'')), Select (lost_query_B iphone)])
   \<and> recipients_A (scenario full_env with_unreachable accepting) iphone with_unreachable
     = [js ''a@b.com'']
   \<and> recipients_B (scenario full_env with_unreachable accepting) with_unreachable
     = [js ''a@b.com'']
   \<and> fst (handler_A (scenario full_env with_unreachable accepting) (post_A iphone))
     = respond 200 (Successes_failures [js ''a@b.com''] [])
   \<and> fst (handler_B (scenario full_env with_unreachable accepting) (post_B ''f1''))
     = respond 200 (Summary (js ''Electronics'') 1 1 [])"
  using failed_lookup_contributes_nothing
      [OF scenario_unreachable(1) [of full_env with_unreachable accepting],
        of iphone "[lost_row_of ''l2'' ''u2'' (Some (js ''a@b.com''))]" "[]" "post_A iphone"
        "[Select (lost_query_A iphone)]" "post_B ''f1''" iphone
        "[Select_single (found_query_B (js ''f1'')), Select (lost_query_B iphone)]"]
    scenario_unreachable(1) [of full_env with_unreachable accepting]
  by (simp only: scenario_unreachable(2-) scenario_prepare_A
      scenario_prepare_B [OF scenario_owners(4)] scenario_accepting_one simp_thms)

text \<open>
  C9. The scenario of the specification: a found item in category "Electronics" titled
  "iPhone 13" and reported by u1, the lost candidates of u2 with contact "a@b.com" and of
  u3 without contact, and an account service that knows u3 as "c@d.com". Both functions
  resolve exactly the recipients a@b.com and c@d.com and make one dispatch to each (the
  inline-payload function when its e-mail key is set). The identifier-lookup function
  reports 2 recipients; the inline-payload function, when no dispatch throws, reports the
  two of them split into successes and failures.
\<close>

theorem iphone_scenario:
  assumes "f_user_id found = js ''u1''" and "f_category found = js ''Electronics''"
    and "f_title found = Js_string (js ''iPhone 13'')"
    and "l_user_id c2 = js ''u2''" and "l_contact_info c2 = Some (js ''a@b.com'')"
    and "l_user_id c3 = js ''u3''" and "l_contact_info c3 = None"
    and "getUserById w (js ''u3'') = Lookup_user (Some (js ''c@d.com''))"
  shows "recipients_A w found [c2, c3] = [js ''a@b.com'', js ''c@d.com'']
       \<and> recipients_B w [c2, c3] = [js ''a@b.com'', js ''c@d.com'']
       \<and> (prepare_A w reqA = (Inr (found, [c2, c3]), evsA) \<and> truthy (env w ''RESEND_API_KEY'') \<longrightarrow>
            sent_to (snd (handler_A w reqA)) = [js ''a@b.com'', js ''c@d.com'']
          \<and> (\<not> fetch_threw (fetch w (request_A w found (js ''a@b.com'')))
              \<and> \<not> fetch_threw (fetch w (request_A w found (js ''c@d.com''))) \<longrightarrow>
              (\<exists>successes failures.
                 fst (handler_A w reqA) = respond 200 (Successes_failures successes failures)
                 \<and> length successes + length failures = 2)))
       \<and> (prepare_B w reqB = (Inr (found, [c2, c3]), evsB) \<longrightarrow>
            sent_to (snd (handler_B w reqB)) = [js ''a@b.com'', js ''c@d.com'']
          \<and> (\<exists>sent failures.
                fst (handler_B w reqB) = respond 200 (Summary (js ''Electronics'') 2 sent failures)))"
proof -
  let ?both = "[js ''a@b.com'', js ''c@d.com'']"
  have A: "recipients_A w found [c2, c3] = ?both"
    using assms
    by (simp add: recipients_A_def sample_contacts isEmail_None js_eq_iff truthy_simps
        the_string_Some set_add_def)
  have B: "recipients_B w [c2, c3] = ?both"
    using assms
    by (simp add: recipients_B_def sample_contacts js_eq_iff js_Nil_iff truthy_simps
        the_string_Some set_add_def)
  have summaryA: "\<exists>successes failures.
        fst (dispatch_A w found ?both) = respond 200 (Successes_failures successes failures)
        \<and> length successes + length failures = 2"
    if "truthy (env w ''RESEND_API_KEY'')"
      and "\<not> fetch_threw (fetch w (request_A w found (js ''a@b.com'')))"
      and "\<not> fetch_threw (fetch w (request_A w found (js ''c@d.com'')))"
  proof -
    from dispatch_A_delivers [of ?both w found] that obtain failures where
      r: "fst (dispatch_A w found ?both)
            = respond 200 (Successes_failures
                (filter (\<lambda>to. fetch_ok (fetch w (request_A w found to))) ?both) failures)"
      and f: "map d_to failures = filter (\<lambda>to. \<not> fetch_ok (fetch w (request_A w found to))) ?both"
      by auto
    have "length failures = length (filter (\<lambda>to. \<not> fetch_ok (fetch w (request_A w found to))) ?both)"
      using arg_cong [OF f, of length] by simp
    then have "length (filter (\<lambda>to. fetch_ok (fetch w (request_A w found to))) ?both)
                 + length failures = 2"
      using sum_length_filter_compl [of "\<lambda>to. fetch_ok (fetch w (request_A w found to))" ?both]
      by simp
    with r show ?thesis by blast
  qed
  have summaryB: "\<exists>sent failures.
        fst (dispatch_B w found ?both) = respond 200 (Summary (js ''Electronics'') 2 sent failures)"
  proof -
    from dispatch_B_delivers [of w found ?both] obtain failures where
      "fst (dispatch_B w found ?both)
         = respond 200 (Summary (f_category found) (length ?both)
             (length (filter (\<lambda>to. fetch_ok (fetch w (request_B w found to))) ?both)) failures)"
      by blast
    moreover have "length ?both = 2" by simp
    ultimately show ?thesis
      unfolding assms(2) by metis
  qed
  show ?thesis
    using A B summaryA summaryB handler_A_reached(1,2) [of w reqA found "[c2, c3]" evsA]
      handler_B_reached(1,2) [of w reqB found "[c2, c3]" evsB]
    by (simp add: sent_to_dispatch_A)
qed

theorem iphone_scenario_witness:
  "f_user_id iphone = js ''u1'' \<and> f_category iphone = js ''Electronics''
   \<and> f_title iphone = Js_string (js ''iPhone 13'')
   \<and> l_user_id (lost_row_of ''l2'' ''u2'' (Some (js ''a@b.com''))) = js ''u2''
   \<and> l_contact_info (lost_row_of ''l2'' ''u2'' (Some (js ''a@b.com''))) = Some (js ''a@b.com'')
   \<and> l_user_id (lost_row_of ''l3'' ''u3'' None) = js ''u3''
   \<and> l_contact_info (lost_row_of ''l3'' ''u3'' None) = None
   \<and> getUserById (scenario full_env two_candidates accepting) (js ''u3'')
       = Lookup_user (Some (js ''c@d.com''))
   \<and> prepare_A (scenario full_env two_candidates accepting) (post_A iphone)
       = (Inr (iphone, two_candidates), [Select (lost_query_A iphone)])
   \<and> truthy (env (scenario full_env two_candidates accepting) ''RESEND_API_KEY'')
   \<and> prepare_B (scenario full_env two_candidates accepting) (post_B ''f1'')
       = (Inr (iphone, two_candidates),
          [Select_single (found_query_B (js ''f1'')), Select (lost_query_B iphone)])
   \<and> recipients_A (scenario full_env two_candidates accepting) iphone two_candidates
       = [js ''a@b.com'', js ''c@d.com'']
   \<and> recipients_B (scenario full_env two_candidates accepting) two_candidates
       = [js ''a@b.com'', js ''c@d.com'']
   \<and> sent_to (snd (handler_A (scenario full_env two_candidates accepting) (post_A iphone)))
       = [js ''a@b.com'', js ''c@d.com'']
   \<and> fst (handler_A (scenario full_env two_candidates accepting) (post_A iphone))
       = respond 200 (Successes_failures [js ''a@b.com'', js ''c@d.com''] [])
   \<and> sent_to (snd (handler_B (scenario full_env two_candidates accepting) (post_B ''f1'')))
       = [js ''a@b.com'', js ''c@d.com'']
   \<and> fst (handler_B (scenario full_env two_candidates accepting) (post_B ''f1''))
       = respond 200 (Summary (js ''Electronics'') 2 2 [])"
proof -
  let ?w = "scenario full_env two_candidates accepting"
  have h: "f_user_id iphone = js ''u1''" "f_category iphone = js ''Electronics''"
    "f_title iphone = Js_string (js ''iPhone 13'')"
    "l_user_id (lost_row_of ''l2'' ''u2'' (Some (js ''a@b.com''))) = js ''u2''"
    "l_contact_info (lost_row_of ''l2'' ''u2'' (Some (js ''a@b.com''))) = Some (js ''a@b.com'')"
    "l_user_id (lost_row_of ''l3'' ''u3'' None) = js ''u3''"
    "l_contact_info (lost_row_of ''l3'' ''u3'' None) = None"
    "getUserById ?w (js ''u3'') = Lookup_user (Some (js ''c@d.com''))"
    by (simp_all add: iphone_sel lost_row_of_sel scenario_sel)
  note t = iphone_scenario [OF h, of "post_A iphone" "[Select (lost_query_A iphone)]"
      "post_B ''f1''" "[Select_single (found_query_B (js ''f1'')), Select (lost_query_B iphone)]",
      unfolded scenario_two_candidates]
  have pA: "prepare_A ?w (post_A iphone) = (Inr (iphone, two_candidates), [Select (lost_query_A iphone)])"
    by (rule scenario_prepare_A)
  have pB: "prepare_B ?w (post_B ''f1'')
       = (Inr (iphone, two_candidates),
          [Select_single (found_query_B (js ''f1'')), Select (lost_query_B iphone)])"
    by (rule scenario_prepare_B [OF scenario_owners(2)])
  have rA: "fst (handler_A ?w (post_A iphone))
       = respond 200 (Successes_failures [js ''a@b.com'', js ''c@d.com''] [])"
    using handler_A_reached(1) [OF pA] by (simp add: scenario_recipients_A scenario_accepting_two)
  have rB: "fst (handler_B ?w (post_B ''f1'')) = respond 200 (Summary (js ''Electronics'') 2 2 [])"
    using handler_B_reached(1) [OF pB] by (simp add: scenario_recipients_B scenario_accepting_two)
  show ?thesis
    using t h pA pB rA rB scenario_full_key [of two_candidates accepting]
    by simp
qed

text \<open>
  C4, at the input where the inline-payload function breaks it. The two recipients of the
  scenario are resolved and the provider's connection breaks for the first of them: the
  \<^verbatim>\<open>fetch\<close> of that callback rejects, nothing catches it, \<^verbatim>\<open>Promise.all\<close> rejects and the
  handler returns no response, although both requests were sent. The identifier-lookup
  function, on the same store and provider, catches the error, records it as that
  recipient's failure and answers 200 with the other recipient sent.
\<close>

theorem transport_error_rejects_inline_payload_handler:
  "recipients_A (scenario full_env two_candidates breaking) iphone two_candidates
     = [js ''a@b.com'', js ''c@d.com'']
   \<and> fetch (scenario full_env two_candidates breaking)
        (request_A (scenario full_env two_candidates breaking) iphone (js ''a@b.com''))
     = Fetch_throws (js ''connection reset'')
   \<and> sent_to (snd (handler_A (scenario full_env two_candidates breaking) (post_A iphone)))
     = [js ''a@b.com'', js ''c@d.com'']
   \<and> fst (handler_A (scenario full_env two_candidates breaking) (post_A iphone))
     = Inl (Unhandled_rejection [js ''connection reset''])
   \<and> fst (handler_B (scenario full_env two_candidates breaking) (post_B ''f1''))
     = respond 200 (Summary (js ''Electronics'') 2 1
         [\<lparr>e_to = js ''a@b.com'', e_error = js ''connection reset''\<rparr>])"
  using handler_A_reached(1,2) [OF scenario_prepare_A(1) [of two_candidates breaking]]
    handler_B_reached(1) [OF scenario_prepare_B [OF scenario_owners(2), of breaking]]
  by (simp add: scenario_recipients_A scenario_recipients_B scenario_breaking_two
      scenario_requests sent_to_dispatch_A scenario_full_key)




end
